theory Spec2Isabelle
  imports Complex_Main
begin

section \<open>JavaScript numbers\<close>

text \<open>
  The TypeScript sources compute with JavaScript numbers, the binary64 format of
  IEEE 754. A finite number is modelled by the real it denotes, and every arithmetic
  operation computes the exact result and rounds it to the nearest binary64 value, ties
  to the even significand, or to an infinity when the rounded value leaves the range.
  The three non-finite values are kept: a division by zero and an overflow produce them
  instead of raising. Both zeros are \<open>Fin 0\<close>: every divisor of the program is a length,
  the literal 100 or a sum started at the literal 0, none of which is the negative zero.
\<close>

datatype number = Fin real | PInf | NInf | NaN

text \<open>
  The least exponent of a normal number, and the least power of two beyond the range.
\<close>

definition emin :: int where
  "emin = - 1022"

definition huge :: real where
  "huge = 2 ^ 1024"

text \<open>
  The exponent of the binade of \<open>x\<close> (subnormal numbers share the exponent \<open>emin\<close>), the
  distance between neighbouring binary64 values there (53 significant bits), the
  nearest integer with ties to even, and the rounding itself.
\<close>

definition expo :: "real \<Rightarrow> int" where
  "expo x = max \<lfloor>log 2 \<bar>x\<bar>\<rfloor> emin"

definition ulp :: "real \<Rightarrow> real" where
  "ulp x = 2 powi (expo x - 52)"

definition rne :: "real \<Rightarrow> int" where
  "rne y = (let f = \<lfloor>y\<rfloor> in
            if y - of_int f < 1 / 2 then f
            else if y - of_int f > 1 / 2 then f + 1
            else if even f then f else f + 1)"

definition round64 :: "real \<Rightarrow> number" where
  "round64 x =
     (if x = 0 then Fin 0
      else (let r = of_int (rne (x / ulp x)) * ulp x
            in if \<bar>r\<bar> \<ge> huge then (if x > 0 then PInf else NInf) else Fin r))"

text \<open>The value of the literal \<open>0.01\<close>: the binary64 number nearest to one hundredth.\<close>

definition lit_0_01 :: real where
  "lit_0_01 = 5764607523034235 / 2 ^ 59"

fun jneg :: "number \<Rightarrow> number" where
  "jneg (Fin x) = Fin (- x)"
| "jneg PInf = NInf"
| "jneg NInf = PInf"
| "jneg NaN = NaN"

fun jadd :: "number \<Rightarrow> number \<Rightarrow> number" where
  "jadd NaN _ = NaN"
| "jadd _ NaN = NaN"
| "jadd (Fin x) (Fin y) = round64 (x + y)"
| "jadd PInf NInf = NaN"
| "jadd NInf PInf = NaN"
| "jadd PInf _ = PInf"
| "jadd _ PInf = PInf"
| "jadd NInf _ = NInf"
| "jadd _ NInf = NInf"

definition jsub :: "number \<Rightarrow> number \<Rightarrow> number" where
  "jsub a b = jadd a (jneg b)"

text \<open>The sign of a number that is not NaN: \<open>1\<close>, \<open>0\<close> or \<open>-1\<close>.\<close>

fun jsign :: "number \<Rightarrow> real" where
  "jsign (Fin x) = sgn x"
| "jsign PInf = 1"
| "jsign NInf = - 1"
| "jsign NaN = 0"

definition signed_inf :: "real \<Rightarrow> number" where
  "signed_inf s = (if s > 0 then PInf else if s < 0 then NInf else NaN)"

fun jmul :: "number \<Rightarrow> number \<Rightarrow> number" where
  "jmul NaN _ = NaN"
| "jmul _ NaN = NaN"
| "jmul (Fin x) (Fin y) = round64 (x * y)"
| "jmul a b = signed_inf (jsign a * jsign b)"

text \<open>
  Division: a finite non-zero value over zero is an infinity of the dividend's sign,
  zero over zero and infinity over infinity are NaN, a finite value over an infinity is zero.
\<close>

fun jdiv :: "number \<Rightarrow> number \<Rightarrow> number" where
  "jdiv NaN _ = NaN"
| "jdiv _ NaN = NaN"
| "jdiv (Fin x) (Fin y) = (if y \<noteq> 0 then round64 (x / y) else signed_inf x)"
| "jdiv (Fin x) _ = Fin 0"
| "jdiv PInf (Fin y) = (if y \<ge> 0 then PInf else NInf)"
| "jdiv NInf (Fin y) = (if y \<ge> 0 then NInf else PInf)"
| "jdiv _ _ = NaN"

fun jabs :: "number \<Rightarrow> number" where
  "jabs (Fin x) = Fin \<bar>x\<bar>"
| "jabs PInf = PInf"
| "jabs NInf = PInf"
| "jabs NaN = NaN"

text \<open>\<open>a > b\<close>: false as soon as one side is NaN.\<close>

fun jgt :: "number \<Rightarrow> number \<Rightarrow> bool" where
  "jgt NaN _ = False"
| "jgt _ NaN = False"
| "jgt (Fin x) (Fin y) = (x > y)"
| "jgt PInf PInf = False"
| "jgt PInf _ = True"
| "jgt _ PInf = False"
| "jgt NInf _ = False"
| "jgt _ NInf = True"

text \<open>Truthiness of a number: \<open>0\<close> and NaN are falsy.\<close>

fun truthy :: "number \<Rightarrow> bool" where
  "truthy (Fin x) = (x \<noteq> 0)"
| "truthy NaN = False"
| "truthy _ = True"

text \<open>
  \<open>v || d\<close> for an optional numeric field \<open>v\<close>: an absent field (\<open>undefined\<close> or
  \<open>null\<close>, here \<open>None\<close>) and a falsy number both give the default.
\<close>

definition or_else :: "number option \<Rightarrow> number \<Rightarrow> number" where
  "or_else v d = (case v of None \<Rightarrow> d | Some x \<Rightarrow> if truthy x then x else d)"

fun is_fin :: "number \<Rightarrow> bool" where
  "is_fin (Fin _) = True"
| "is_fin _ = False"

fun the_fin :: "number \<Rightarrow> real" where
  "the_fin (Fin x) = x"
| "the_fin _ = 0"

section \<open>SplitCalculator: \<open>calculateParticipantAmounts\<close> (src/lib/splitwise.ts)\<close>

text \<open>
  The elements of \<open>participants\<close>. The function copies every element with the spread
  \<open>...p\<close>, so whatever further fields an element carries are copied too: the functions
  below work on the extensible record.
\<close>

record participant =
  user_email :: string
  user_name :: string
  amount_owed :: "number option"
  percentage :: "number option"
  shares :: "number option"

text \<open>\<open>participants.reduce((sum, p) => sum + (p.shares || 1), 0)\<close>\<close>

definition totalShares :: "'a participant_scheme list \<Rightarrow> number" where
  "totalShares participants =
     foldl (\<lambda>sum p. jadd sum (or_else (shares p) (Fin 1))) (Fin 0) participants"

definition calculateParticipantAmounts ::
  "'a participant_scheme list \<Rightarrow> number \<Rightarrow> string \<Rightarrow> 'a participant_scheme list" where
  "calculateParticipantAmounts participants totalAmount splitMethod =
     (if splitMethod = ''equal'' then
        (let equalAmount = jdiv totalAmount (Fin (real (length participants)))
         in map (\<lambda>p. p\<lparr>amount_owed := Some equalAmount\<rparr>) participants)
      else if splitMethod = ''percentage'' then
        map (\<lambda>p. p\<lparr>amount_owed :=
               Some (jdiv (jmul totalAmount (or_else (percentage p) (Fin 0))) (Fin 100))\<rparr>)
          participants
      else if splitMethod = ''shares'' then
        map (\<lambda>p. p\<lparr>amount_owed :=
               Some (jdiv (jmul totalAmount (or_else (shares p) (Fin 1)))
                      (totalShares participants))\<rparr>)
          participants
      else if splitMethod = ''custom'' then
        map (\<lambda>p. p\<lparr>amount_owed := Some (or_else (amount_owed p) (Fin 0))\<rparr>) participants
      else participants)"

text \<open>
  The sum of the amounts as they are persisted: \<open>createSharedExpense\<close> stores
  \<open>p.amount_owed || 0\<close> for every participant.
\<close>

definition sum_owed :: "'a participant_scheme list \<Rightarrow> number" where
  "sum_owed ps = foldl jadd (Fin 0) (map (\<lambda>p. or_else (amount_owed p) (Fin 0)) ps)"

section \<open>The shared-expense form (src/components/Splitwise/SharedExpenseForm.tsx)\<close>

record Friend =
  friend_email :: string
  friend_name :: string

record group_member =
  gm_user_email :: string
  gm_user_name :: string

text \<open>The objects built by \<open>getAllParticipants\<close>.\<close>

record form_participant =
  fp_user_email :: string
  fp_user_name :: string
  isCurrentUser :: bool

text \<open>
  The state the form reads: \<open>user?.email\<close> (\<open>None\<close> when there is no user or no
  email), the selected friends, the group members, the split method, the three
  dictionaries keyed by e-mail and the watched field \<open>total_amount\<close>.
\<close>

record form_state =
  user_email_opt :: "string option"
  selectedFriends :: "Friend list"
  groupMembers :: "group_member list"
  splitMethod :: string
  percentages :: "string \<rightharpoonup> number"
  customAmounts :: "string \<rightharpoonup> number"
  share_counts :: "string \<rightharpoonup> number"
  total_amount :: number

text \<open>\<open>email.split('@')[0]\<close>\<close>

definition local_part :: "string \<Rightarrow> string" where
  "local_part e = takeWhile (\<lambda>c. c \<noteq> CHR ''@'') e"

text \<open>
  \<open>participants.filter((p, index, self) => index === self.findIndex(q => q.user_email === p.user_email))\<close>:
  an element is kept when no earlier element has its e-mail.
\<close>

fun unique_by_email :: "string list \<Rightarrow> form_participant list \<Rightarrow> form_participant list" where
  "unique_by_email seen [] = []"
| "unique_by_email seen (p # ps) =
     (if fp_user_email p \<in> set seen then unique_by_email seen ps
      else p # unique_by_email (fp_user_email p # seen) ps)"

definition getAllParticipants :: "form_state \<Rightarrow> form_participant list" where
  "getAllParticipants st =
     unique_by_email []
       (\<lparr>fp_user_email = (case user_email_opt st of None \<Rightarrow> [] | Some e \<Rightarrow> e),
         fp_user_name = (case user_email_opt st of None \<Rightarrow> ''You''
                         | Some e \<Rightarrow> if local_part e = [] then ''You'' else local_part e),
         isCurrentUser = True\<rparr>
        # map (\<lambda>f. \<lparr>fp_user_email = friend_email f, fp_user_name = friend_name f,
                      isCurrentUser = False\<rparr>) (selectedFriends st)
        @ map (\<lambda>m. \<lparr>fp_user_email = gm_user_email m, fp_user_name = gm_user_name m,
                      isCurrentUser = (user_email_opt st = Some (gm_user_email m))\<rparr>)
            (groupMembers st))"

text \<open>\<open>const totalAmount = watch('total_amount') || 0\<close>\<close>

definition totalAmount :: "form_state \<Rightarrow> number" where
  "totalAmount st = or_else (Some (total_amount st)) (Fin 0)"

definition totalPercentage :: "form_state \<Rightarrow> number" where
  "totalPercentage st =
     foldl (\<lambda>sum p. jadd sum (or_else (percentages st (fp_user_email p)) (Fin 0))) (Fin 0)
       (getAllParticipants st)"

definition totalCustom :: "form_state \<Rightarrow> number" where
  "totalCustom st =
     foldl (\<lambda>sum p. jadd sum (or_else (customAmounts st (fp_user_email p)) (Fin 0))) (Fin 0)
       (getAllParticipants st)"

definition validateSplit :: "form_state \<Rightarrow> bool" where
  "validateSplit st =
     (if length (getAllParticipants st) < 2 then False
      else if splitMethod st = ''percentage''
              \<and> jgt (jabs (jsub (totalPercentage st) (Fin 100))) (Fin lit_0_01) then False
      else if splitMethod st = ''custom''
              \<and> jgt (jabs (jsub (totalCustom st) (totalAmount st))) (Fin lit_0_01) then False
      else True)"

text \<open>
  The list \<open>participantsWithAmounts\<close> of \<open>handleFormSubmit\<close>: the form computes an
  amount itself and hands over the percentage or share count it used.
\<close>

definition formTotalShares :: "form_state \<Rightarrow> number" where
  "formTotalShares st =
     foldl (\<lambda>sum p. jadd sum (or_else (share_counts st (fp_user_email p)) (Fin 1))) (Fin 0)
       (getAllParticipants st)"

definition participantsWithAmounts :: "form_state \<Rightarrow> participant list" where
  "participantsWithAmounts st =
     map (\<lambda>p.
       if splitMethod st = ''equal'' then
         \<lparr>user_email = fp_user_email p, user_name = fp_user_name p,
          amount_owed = Some (jdiv (totalAmount st) (Fin (real (length (getAllParticipants st))))),
          percentage = None, shares = None\<rparr>
       else if splitMethod st = ''percentage'' then
         (let pc = or_else (percentages st (fp_user_email p)) (Fin 0) in
          \<lparr>user_email = fp_user_email p, user_name = fp_user_name p,
           amount_owed = Some (jdiv (jmul (totalAmount st) pc) (Fin 100)),
           percentage = Some pc, shares = None\<rparr>)
       else if splitMethod st = ''custom'' then
         \<lparr>user_email = fp_user_email p, user_name = fp_user_name p,
          amount_owed = Some (or_else (customAmounts st (fp_user_email p)) (Fin 0)),
          percentage = None, shares = None\<rparr>
       else if splitMethod st = ''shares'' then
         (let shareCount = or_else (share_counts st (fp_user_email p)) (Fin 1) in
          \<lparr>user_email = fp_user_email p, user_name = fp_user_name p,
           amount_owed = Some (jdiv (jmul (totalAmount st) shareCount) (formTotalShares st)),
           percentage = None, shares = Some shareCount\<rparr>)
       else
         \<lparr>user_email = fp_user_email p, user_name = fp_user_name p,
          amount_owed = Some (Fin 0), percentage = None, shares = None\<rparr>)
     (getAllParticipants st)"

text \<open>
  What \<open>createSharedExpense\<close> and \<open>updateSharedExpense\<close> compute from the submitted
  form: \<open>expenseData.total_amount\<close> is the form's field and \<open>split_method\<close> its method.
\<close>

definition submittedAmounts :: "form_state \<Rightarrow> participant list" where
  "submittedAmounts st =
     calculateParticipantAmounts (participantsWithAmounts st) (total_amount st) (splitMethod st)"

section \<open>The store (the migration that creates the Splitwise tables)\<close>

text \<open>
  The tables are lists of rows. Columns of type \<open>numeric\<close> are exact decimals, modelled
  as reals; amounts that reach the store are finite. The columns \<open>amount_paid\<close> and
  \<open>is_settled\<close> are nullable in the schema, but every statement of the repository gives
  them a value (the defaults \<open>0\<close> and \<open>false\<close> on insert, explicit values in
  \<open>settleExpense\<close>), so rows carry plain values. Columns that the modelled statements
  neither read nor write (category, date, currency, \<dots>) are left out.
\<close>

record auth_user =
  au_id :: string
  au_email :: "string option"
  au_name :: "string option"

record shared_expense_row =
  se_id :: string
  se_created_by :: string
  se_title :: string
  se_total_amount :: real

record expense_participant_row =
  ep_id :: string
  ep_shared_expense_id :: string
  ep_user_email :: string
  ep_user_name :: string
  ep_amount_owed :: real
  ep_amount_paid :: real
  ep_is_settled :: bool

datatype settlement_status = Pending | Completed | Cancelled

record settlement_row =
  st_id :: string
  st_from_user_email :: string
  st_to_user_email :: string
  st_amount :: real
  st_shared_expense_id :: "string option"
  st_description :: "string option"
  st_status :: settlement_status
  st_settled_at :: "string option"
  st_created_at :: string

record database =
  auth_users :: "auth_user list"
  shared_expenses :: "shared_expense_row list"
  expense_participants :: "expense_participant_row list"
  settlements :: "settlement_row list"

text \<open>
  What a request carries and what the two sides generate while serving it: the session
  (\<open>auth.uid()\<close>, \<open>auth.email()\<close>, also the \<open>user.user\<close> of \<open>supabase.auth.getUser()\<close>),
  a failure of the request before it reaches the database (the \<open>error\<close> of the client's
  answer), the server's \<open>gen_random_uuid()\<close> and \<open>now()\<close>, and the client's
  \<open>new Date().toISOString()\<close>.
\<close>

datatype error =
    Error string
  | PostgrestError string string


record request =
  auth_uid :: "string option"
  auth_email :: "string option"
  request_error :: "error option"
  gen_random_uuid :: string
  server_now :: string
  client_now :: string

text \<open>SQLSTATE 23514 is a violated CHECK, 23505 a violated key, 23503 a violated reference.\<close>

definition check_violation :: "string \<Rightarrow> error" where
  "check_violation constraint = PostgrestError ''23514'' constraint"

definition unique_violation :: "string \<Rightarrow> error" where
  "unique_violation constraint = PostgrestError ''23505'' constraint"

definition foreign_key_violation :: "string \<Rightarrow> error" where
  "foreign_key_violation constraint = PostgrestError ''23503'' constraint"

subsection \<open>\<open>calculate_user_balance\<close>\<close>

text \<open>\<open>expense_participants ep JOIN shared_expenses se ON ep.shared_expense_id = se.id\<close>\<close>

definition ep_join_se :: "database \<Rightarrow> (expense_participant_row \<times> shared_expense_row) list" where
  "ep_join_se db =
     [(ep, se). ep \<leftarrow> expense_participants db, se \<leftarrow> shared_expenses db,
                ep_shared_expense_id ep = se_id se]"

text \<open>
  \<open>(SELECT auth.uid() FROM auth.users WHERE email = user_email_param)\<close>: the session's
  user id when a user has that e-mail, NULL otherwise (e-mails of \<open>auth.users\<close> are
  unique, so the subquery has at most one row).
\<close>

definition session_uid_for :: "database \<Rightarrow> request \<Rightarrow> string \<Rightarrow> string option" where
  "session_uid_for db rq user_email_param =
     (if \<exists>u \<in> set (auth_users db). au_email u = Some user_email_param
      then auth_uid rq else None)"

text \<open>The two scalar subqueries on \<open>auth.users\<close> by primary key.\<close>

definition email_of_user :: "database \<Rightarrow> string \<Rightarrow> string option" where
  "email_of_user db uid =
     (case find (\<lambda>u. au_id u = uid) (auth_users db) of None \<Rightarrow> None | Some u \<Rightarrow> au_email u)"

definition name_of_user :: "database \<Rightarrow> string \<Rightarrow> string option" where
  "name_of_user db uid =
     (case find (\<lambda>u. au_id u = uid) (auth_users db) of None \<Rightarrow> None | Some u \<Rightarrow> au_name u)"

text \<open>
  A row of either common table expression: \<open>friend_email\<close>, \<open>friend_name\<close>, \<open>amount\<close>.
  \<open>user_owes\<close> groups by the participant's e-mail and name and negates the sum;
  \<open>user_is_owed\<close> groups by the creator of the expense.
\<close>

type_synonym cte_row = "string option \<times> string option \<times> real"

definition user_owes :: "database \<Rightarrow> request \<Rightarrow> string \<Rightarrow> cte_row list" where
  "user_owes db rq user_email_param =
     (let rows = filter (\<lambda>(ep, se). Some (se_created_by se) = session_uid_for db rq user_email_param
                                   \<and> ep_user_email ep \<noteq> user_email_param
                                   \<and> \<not> ep_is_settled ep) (ep_join_se db)
      in map (\<lambda>(e, n). (Some e, Some n,
                 - sum_list [ep_amount_owed ep - ep_amount_paid ep.
                             (ep, se) \<leftarrow> rows, ep_user_email ep = e \<and> ep_user_name ep = n]))
           (remdups (map (\<lambda>(ep, se). (ep_user_email ep, ep_user_name ep)) rows)))"

definition user_is_owed :: "database \<Rightarrow> string \<Rightarrow> cte_row list" where
  "user_is_owed db user_email_param =
     (let rows = filter (\<lambda>(ep, se). ep_user_email ep = user_email_param \<and> \<not> ep_is_settled ep)
                   (ep_join_se db)
      in map (\<lambda>c. (email_of_user db c, name_of_user db c,
                 sum_list [ep_amount_owed ep - ep_amount_paid ep.
                           (ep, se) \<leftarrow> rows, se_created_by se = c]))
           (remdups (map (\<lambda>(ep, se). se_created_by se) rows)))"

text \<open>
  \<open>uo FULL OUTER JOIN uio ON uo.friend_email = uio.friend_email\<close>: the pairs that match,
  then the rows of either side without a partner. A NULL e-mail matches nothing.
\<close>

definition join_on :: "cte_row \<Rightarrow> cte_row \<Rightarrow> bool" where
  "join_on uo uio = (fst uo \<noteq> None \<and> fst uo = fst uio)"

definition full_outer_join :: "cte_row list \<Rightarrow> cte_row list \<Rightarrow> (cte_row option \<times> cte_row option) list" where
  "full_outer_join uos uios =
     [(Some uo, Some uio). uo \<leftarrow> uos, uio \<leftarrow> uios, join_on uo uio]
     @ [(Some uo, None). uo \<leftarrow> uos, \<not> (\<exists>uio \<in> set uios. join_on uo uio)]
     @ [(None, Some uio). uio \<leftarrow> uios, \<not> (\<exists>uo \<in> set uos. join_on uo uio)]"

text \<open>The rows returned, as the interface \<open>UserBalance\<close> of src/lib/splitwise.ts names them.\<close>

record UserBalance =
  ub_friend_email :: "string option"
  ub_friend_name :: "string option"
  balance :: real

definition coalesce :: "'a option \<Rightarrow> 'a option \<Rightarrow> 'a option" where
  "coalesce a b = (case a of None \<Rightarrow> b | Some x \<Rightarrow> Some x)"

definition cte_amount :: "cte_row option \<Rightarrow> real" where
  "cte_amount r = (case r of None \<Rightarrow> 0 | Some (e, n, a) \<Rightarrow> a)"

definition cte_email :: "cte_row option \<Rightarrow> string option" where
  "cte_email r = (case r of None \<Rightarrow> None | Some (e, n, a) \<Rightarrow> e)"

definition cte_name :: "cte_row option \<Rightarrow> string option" where
  "cte_name r = (case r of None \<Rightarrow> None | Some (e, n, a) \<Rightarrow> n)"

definition calculate_user_balance :: "database \<Rightarrow> request \<Rightarrow> string \<Rightarrow> UserBalance list" where
  "calculate_user_balance db rq user_email_param =
     map (\<lambda>(uo, uio). \<lparr>ub_friend_email = coalesce (cte_email uo) (cte_email uio),
                        ub_friend_name = coalesce (cte_name uo) (cte_name uio),
                        balance = cte_amount uo + cte_amount uio\<rparr>)
       (filter (\<lambda>(uo, uio). cte_amount uo + cte_amount uio \<noteq> 0)
          (full_outer_join (user_owes db rq user_email_param)
             (user_is_owed db user_email_param)))"

text \<open>\<open>getUserBalances\<close> calls the function with the e-mail of the session's user.\<close>

definition getUserBalances :: "database \<Rightarrow> request \<Rightarrow> error + UserBalance list" where
  "getUserBalances db rq =
     (case auth_email rq of
        None \<Rightarrow> Inl (Error ''Not authenticated'')
      | Some e \<Rightarrow>
          if e = [] then Inl (Error ''Not authenticated'')
          else (case request_error rq of
                  Some err \<Rightarrow> Inl err
                | None \<Rightarrow> Inr (calculate_user_balance db rq e)))"

subsection \<open>SettlementLedger: \<open>settleExpense\<close>, \<open>createSettlement\<close>, \<open>markSettlementComplete\<close>\<close>

text \<open>
  Row-level security on \<open>expense_participants\<close>, as the last migration
  (20250629070431) leaves it. It drops the earlier policies and creates one SELECT
  policy, \<open>user_email = auth.email()\<close>, and two UPDATE policies: the row is the session's
  own participation, or the session's user created the expense. An UPDATE with a WHERE
  clause reads the rows it changes, so it reaches only the rows that the SELECT policy
  shows and an UPDATE policy admits. A row that the policies hide is not updated, and
  that is no error.
\<close>

definition may_select_participant :: "request \<Rightarrow> expense_participant_row \<Rightarrow> bool" where
  "may_select_participant rq ep = (auth_email rq = Some (ep_user_email ep))"

definition may_update_participant :: "database \<Rightarrow> request \<Rightarrow> expense_participant_row \<Rightarrow> bool" where
  "may_update_participant db rq ep =
     (auth_email rq = Some (ep_user_email ep) \<or>
      (\<exists>se \<in> set (shared_expenses db).
          se_id se = ep_shared_expense_id ep \<and> auth_uid rq = Some (se_created_by se)))"

text \<open>The rows that \<open>UPDATE \<dots> WHERE id = participantId\<close> reaches in the session.\<close>

definition reached :: "database \<Rightarrow> request \<Rightarrow> string \<Rightarrow> expense_participant_row \<Rightarrow> bool" where
  "reached db rq participantId ep =
     (ep_id ep = participantId \<and> may_select_participant rq ep \<and> may_update_participant db rq ep)"

text \<open>
  \<open>update({amount_paid: amount, is_settled: true}).eq('id', participantId)\<close>. The table has
  \<open>CHECK (amount_paid >= 0)\<close>: a new row that violates it fails the whole statement.
\<close>

definition settleExpense :: "database \<Rightarrow> request \<Rightarrow> string \<Rightarrow> real \<Rightarrow> error + database" where
  "settleExpense db rq participantId amount =
     (case request_error rq of
        Some err \<Rightarrow> Inl err
      | None \<Rightarrow>
          (if (\<exists>ep \<in> set (expense_participants db). reached db rq participantId ep) \<and> \<not> amount \<ge> 0
           then Inl (check_violation ''expense_participants_amount_paid_check'')
           else Inr (db\<lparr>expense_participants :=
                      map (\<lambda>ep. if reached db rq participantId ep
                                 then ep\<lparr>ep_amount_paid := amount, ep_is_settled := True\<rparr>
                                 else ep)
                        (expense_participants db)\<rparr>)))"

record settlement_input =
  in_to_user_email :: string
  in_amount :: real
  in_shared_expense_id :: "string option"
  in_description :: "string option"

text \<open>The INSERT and UPDATE policies on \<open>settlements\<close>: the session is one of the two parties.\<close>

definition involved_in :: "request \<Rightarrow> settlement_row \<Rightarrow> bool" where
  "involved_in rq s =
     (auth_email rq = Some (st_from_user_email s) \<or> auth_email rq = Some (st_to_user_email s))"

text \<open>
  \<open>insert({from_user_email: user.user.email, \<dots>, status: 'pending'}).select().single()\<close>.
  The policy is checked first, then \<open>CHECK (amount > 0)\<close>, the primary key and the
  reference to \<open>shared_expenses\<close>.
\<close>

definition createSettlement ::
  "database \<Rightarrow> request \<Rightarrow> settlement_input \<Rightarrow> error + (database \<times> settlement_row)" where
  "createSettlement db rq settlement =
     (case auth_email rq of
        None \<Rightarrow> Inl (Error ''Not authenticated'')
      | Some e \<Rightarrow>
          if e = [] then Inl (Error ''Not authenticated'')
          else
            (let row = \<lparr>st_id = gen_random_uuid rq,
                        st_from_user_email = e,
                        st_to_user_email = in_to_user_email settlement,
                        st_amount = in_amount settlement,
                        st_shared_expense_id = in_shared_expense_id settlement,
                        st_description = in_description settlement,
                        st_status = Pending,
                        st_settled_at = None,
                        st_created_at = server_now rq\<rparr>
             in case request_error rq of
                  Some err \<Rightarrow> Inl err
                | None \<Rightarrow>
                    if \<not> involved_in rq row
                    then Inl (PostgrestError ''42501'' ''settlements'')
                    else if \<not> st_amount row > 0
                    then Inl (check_violation ''settlements_amount_check'')
                    else if st_id row \<in> set (map st_id (settlements db))
                    then Inl (unique_violation ''settlements_pkey'')
                    else if (case st_shared_expense_id row of
                               None \<Rightarrow> False
                             | Some x \<Rightarrow> x \<notin> set (map se_id (shared_expenses db)))
                    then Inl (foreign_key_violation ''settlements_shared_expense_id_fkey'')
                    else Inr (db\<lparr>settlements := settlements db @ [row]\<rparr>, row)))"

text \<open>
  \<open>update({status: 'completed', settled_at: new Date().toISOString()}).eq('id', settlementId)\<close>:
  no condition on the current status.
\<close>

definition markSettlementComplete :: "database \<Rightarrow> request \<Rightarrow> string \<Rightarrow> error + database" where
  "markSettlementComplete db rq settlementId =
     (case request_error rq of
        Some err \<Rightarrow> Inl err
      | None \<Rightarrow>
          Inr (db\<lparr>settlements :=
                 map (\<lambda>s. if st_id s = settlementId \<and> involved_in rq s
                            then s\<lparr>st_status := Completed, st_settled_at := Some (client_now rq)\<rparr>
                            else s)
                   (settlements db)\<rparr>))"

text \<open>The operations of the ledger, as one step function.\<close>

datatype ledger_op =
    SettleExpense string real
  | CreateSettlement settlement_input
  | MarkSettlementComplete string

fun ledger_step :: "database \<Rightarrow> request \<Rightarrow> ledger_op \<Rightarrow> error + database" where
  "ledger_step db rq (SettleExpense participantId amount) = settleExpense db rq participantId amount"
| "ledger_step db rq (CreateSettlement settlement) =
     (case createSettlement db rq settlement of Inl err \<Rightarrow> Inl err | Inr (db', row) \<Rightarrow> Inr db')"
| "ledger_step db rq (MarkSettlementComplete settlementId) = markSettlementComplete db rq settlementId"

section \<open>Notifications\<close>

text \<open>
  The two notification methods of \<open>SplitwiseService\<close> post to an edge function. What
  they meet is a parameter: the session of \<open>supabase.auth.getSession()\<close> and, for every
  payload, the outcome of \<open>fetch\<close> (a rejection, or a response with its \<open>ok\<close> flag, its
  status as printed, its text, and the \<open>success\<close> and \<open>error\<close> fields of its JSON body).
\<close>

record http_response =
  ok :: bool
  status :: string
  body_text :: string
  result_success :: bool
  result_error :: "string option"

record EmailNotification =
  en_to_email :: string
  en_to_name :: string
  en_from_name :: string
  en_expense_title :: string
  en_expense_description :: "string option"
  en_total_amount :: number
  en_amount_owed :: number
  en_expense_date :: string
  en_split_method :: string

record SettlementNotification =
  sn_to_email :: string
  sn_to_name :: string
  sn_from_name :: string
  sn_amount :: real
  sn_expense_title :: string
  sn_payment_method :: string
  sn_notes :: string

record functions_endpoint =
  session_token :: "string option"
  fetch_expense_notification :: "EmailNotification \<Rightarrow> error + http_response"
  fetch_settlement_notification :: "SettlementNotification \<Rightarrow> error + http_response"

text \<open>
  The body shared by both methods; the \<open>catch\<close> block logs and rethrows, so every
  failure leaves the method as an exception.
\<close>

definition read_response :: "string \<Rightarrow> error + http_response \<Rightarrow> error + unit" where
  "read_response fallback fetched =
     (case fetched of
        Inl err \<Rightarrow> Inl err
      | Inr response \<Rightarrow>
          if \<not> ok response
          then Inl (Error (''HTTP error! status: '' @ status response @ '', body: '' @ body_text response))
          else if \<not> result_success response
          then Inl (Error (case result_error response of
                             None \<Rightarrow> fallback
                           | Some m \<Rightarrow> if m = [] then fallback else m))
          else Inr ())"

definition sendExpenseNotification :: "functions_endpoint \<Rightarrow> EmailNotification \<Rightarrow> error + unit" where
  "sendExpenseNotification fe notification =
     (case session_token fe of
        None \<Rightarrow> Inl (Error ''Not authenticated'')
      | Some access_token \<Rightarrow>
          read_response ''Failed to send notification'' (fetch_expense_notification fe notification))"


text \<open>\<open>email?.split('@')[0] || 'Someone'\<close>\<close>

definition from_name_of :: "string option \<Rightarrow> string" where
  "from_name_of email =
     (case email of None \<Rightarrow> ''Someone''
      | Some e \<Rightarrow> if local_part e = [] then ''Someone'' else local_part e)"

subsection \<open>\<open>handleSettleUp\<close> (src/components/Splitwise/SettleUpModal.tsx)\<close>

record SettleUpModalProps =
  participantId :: string
  participantName :: string
  participantEmail :: string
  amountOwed :: real
  expenseTitle :: string




subsection \<open>\<open>createSharedExpense\<close> (src/lib/splitwise.ts)\<close>

record expense_input =
  ex_title :: string
  ex_description :: "string option"
  ex_total_amount :: number
  ex_category :: string
  ex_date :: string
  ex_split_method :: string
  ex_participants :: "participant list"
  ex_group_id :: "string option"

text \<open>
  The answers of the store to the calls of \<open>createSharedExpense\<close>, in the order it makes
  them: the user of \<open>supabase.auth.getUser()\<close> (id and e-mail), the insert into
  \<open>shared_expenses\<close> (the id of the new row), the insert into \<open>expense_participants\<close>,
  and \<open>getSharedExpense\<close> of the new id.
\<close>

record 'r create_answers =
  ca_user :: "(string \<times> string option) option"
  ca_insert_expense :: "error + string"
  ca_insert_participants :: "error option"
  ca_getSharedExpense :: "string \<Rightarrow> error + 'r"

text \<open>
  The result, and the e-mails for which \<open>console.warn\<close> reported a failed notification:
  the \<open>try\<close> around \<open>sendExpenseNotification\<close> absorbs the exception.
\<close>

definition createSharedExpense ::
  "'r create_answers \<Rightarrow> functions_endpoint \<Rightarrow> expense_input \<Rightarrow> (error + 'r) \<times> string list" where
  "createSharedExpense ca fe expense =
     (case ca_user ca of
        None \<Rightarrow> (Inl (Error ''Not authenticated''), [])
      | Some (uid, currentUserEmail) \<Rightarrow>
          (case ca_insert_expense ca of
             Inl expenseError \<Rightarrow> (Inl expenseError, [])
           | Inr sharedExpenseId \<Rightarrow>
               (let participants = calculateParticipantAmounts (ex_participants expense)
                                     (ex_total_amount expense) (ex_split_method expense)
                in case ca_insert_participants ca of
                     Some participantError \<Rightarrow> (Inl participantError, [])
                   | None \<Rightarrow>
                       (ca_getSharedExpense ca sharedExpenseId,
                        [user_email p. p \<leftarrow> participants,
                           Some (user_email p) \<noteq> currentUserEmail,
                           isl (sendExpenseNotification fe
                                  \<lparr>en_to_email = user_email p,
                                   en_to_name = user_name p,
                                   en_from_name = from_name_of currentUserEmail,
                                   en_expense_title = ex_title expense,
                                   en_expense_description = ex_description expense,
                                   en_total_amount = ex_total_amount expense,
                                   en_amount_owed = or_else (amount_owed p) (Fin 0),
                                   en_expense_date = ex_date expense,
                                   en_split_method = ex_split_method expense\<rparr>)]))))"

section \<open>Vocabulary of the properties\<close>

text \<open>
  The accuracy of one rounding: the result of rounding \<open>x\<close> differs from \<open>x\<close> by at most
  \<open>eps64 * \<bar>x\<bar> + eta64\<close>, the unit roundoff and half the least subnormal number.
\<close>

definition eps64 :: real where
  "eps64 = 1 / 2 ^ 53"

definition eta64 :: real where
  "eta64 = 2 powi (emin - 53)"

text \<open>
  The percentage and the share count that \<open>calculateParticipantAmounts\<close> uses for a
  participant (\<open>p.percentage || 0\<close> and \<open>p.shares || 1\<close>), as reals.
\<close>

definition percent :: "'a participant_scheme \<Rightarrow> real" where
  "percent p = the_fin (or_else (percentage p) (Fin 0))"

definition share_count :: "'a participant_scheme \<Rightarrow> real" where
  "share_count p = the_fin (or_else (shares p) (Fin 1))"

text \<open>
  A participant whose share count, where it is given, is a whole number from 1 on, as
  the table demands (\<open>shares integer CHECK (shares > 0)\<close>) and the form enters it.
\<close>

definition whole_shares :: "'a participant_scheme \<Rightarrow> bool" where
  "whole_shares p =
     (case shares p of
        None \<Rightarrow> True
      | Some k \<Rightarrow> is_fin k \<and> 1 \<le> the_fin k \<and> the_fin k = of_int \<lfloor>the_fin k\<rfloor>)"

text \<open>The participant with twice the share count; an absent count is 1, its double 2.\<close>

definition double_shares :: "'a participant_scheme \<Rightarrow> 'a participant_scheme" where
  "double_shares p = p\<lparr>shares := Some (jmul (Fin 2) (or_else (shares p) (Fin 1)))\<rparr>"

text \<open>
  The test the form applies to the custom amounts, \<open>Math.abs(a - b) > 0.01\<close>, is false
  of \<open>a\<close> and \<open>b\<close>, and the difference is a number.
\<close>

definition within_tolerance :: "number \<Rightarrow> number \<Rightarrow> bool" where
  "within_tolerance a b = (case jabs (jsub a b) of Fin d \<Rightarrow> d \<le> lit_0_01 | _ \<Rightarrow> False)"

text \<open>
  The entries of the form's dictionaries: a percentage between 0 and 100 (the bounds of
  its input field), a whole share count between 1 and a million, a finite custom amount.
\<close>

definition percent_entry :: "number option \<Rightarrow> bool" where
  "percent_entry v =
     (case v of None \<Rightarrow> True | Some q \<Rightarrow> is_fin q \<and> 0 \<le> the_fin q \<and> the_fin q \<le> 100)"

definition share_entry :: "number option \<Rightarrow> bool" where
  "share_entry v =
     (case v of
        None \<Rightarrow> True
      | Some k \<Rightarrow> is_fin k \<and> 1 \<le> the_fin k \<and> the_fin k \<le> 1000000
                  \<and> the_fin k = of_int \<lfloor>the_fin k\<rfloor>)"

definition finite_entry :: "number option \<Rightarrow> bool" where
  "finite_entry v = (case v of None \<Rightarrow> True | Some x \<Rightarrow> is_fin x)"

text \<open>
  A percentage on the grid of its input field (\<open>step="0.1"\<close>): the number nearest to a
  whole count of tenths.
\<close>

definition tenths_entry :: "number option \<Rightarrow> bool" where
  "tenths_entry v =
     (case v of
        None \<Rightarrow> True
      | Some q \<Rightarrow> q = round64 (of_int (rne (the_fin q * 10)) / 10))"

text \<open>
  A form of ordinary size: a total between 0 and 1000000000, at most 1000 participants,
  and entries as above for every participant.
\<close>

definition ordinary_form :: "form_state \<Rightarrow> bool" where
  "ordinary_form st =
     (is_fin (total_amount st) \<and> 0 \<le> the_fin (total_amount st)
      \<and> the_fin (total_amount st) \<le> 1000000000 \<and>
      length (getAllParticipants st) \<le> 1000 \<and>
      list_all (\<lambda>p. percent_entry (percentages st (fp_user_email p)) \<and>
                    finite_entry (customAmounts st (fp_user_email p)) \<and>
                    share_entry (share_counts st (fp_user_email p)))
        (getAllParticipants st))"

definition percentages_in_tenths :: "form_state \<Rightarrow> bool" where
  "percentages_in_tenths st =
     list_all (\<lambda>p. tenths_entry (percentages st (fp_user_email p))) (getAllParticipants st)"


subsection \<open>Concrete inputs\<close>

text \<open>
  A participant as the form submits it for an equal split, and one with a percentage or
  a share count.
\<close>

definition person :: "string \<Rightarrow> string \<Rightarrow> participant" where
  "person email name =
     \<lparr>user_email = email, user_name = name, amount_owed = None, percentage = None, shares = None\<rparr>"

text \<open>
  The form of user \<open>a@x.org\<close> who selected the friend \<open>b@x.org\<close> and chose the percentage
  split, with the total and the two percentages entered.
\<close>

definition percentage_form :: "real \<Rightarrow> real \<Rightarrow> real \<Rightarrow> form_state" where
  "percentage_form t pa pb =
     \<lparr>user_email_opt = Some ''a@x.org'',
      selectedFriends = [\<lparr>friend_email = ''b@x.org'', friend_name = ''B''\<rparr>],
      groupMembers = [],
      splitMethod = ''percentage'',
      percentages = [''a@x.org'' \<mapsto> Fin pa, ''b@x.org'' \<mapsto> Fin pb],
      customAmounts = Map.empty,
      share_counts = Map.empty,
      total_amount = Fin t\<rparr>"

text \<open>
  The store after user A (\<open>uid-a\<close>, \<open>a@x.org\<close>) created the shared expense ``Dinner'' of
  100 with the participants A (60) and B (40): nothing paid, nobody settled.
\<close>

definition participant_a :: expense_participant_row where
  "participant_a =
     \<lparr>ep_id = ''p1'', ep_shared_expense_id = ''e1'', ep_user_email = ''a@x.org'',
      ep_user_name = ''A'', ep_amount_owed = 60, ep_amount_paid = 0, ep_is_settled = False\<rparr>"

definition participant_b :: expense_participant_row where
  "participant_b =
     \<lparr>ep_id = ''p2'', ep_shared_expense_id = ''e1'', ep_user_email = ''b@x.org'',
      ep_user_name = ''B'', ep_amount_owed = 40, ep_amount_paid = 0, ep_is_settled = False\<rparr>"

definition dinner :: shared_expense_row where
  "dinner = \<lparr>se_id = ''e1'', se_created_by = ''uid-a'', se_title = ''Dinner'', se_total_amount = 100\<rparr>"

definition db_dinner :: database where
  "db_dinner =
     \<lparr>auth_users =
        [\<lparr>au_id = ''uid-a'', au_email = Some ''a@x.org'', au_name = Some ''A''\<rparr>,
         \<lparr>au_id = ''uid-b'', au_email = Some ''b@x.org'', au_name = Some ''B''\<rparr>],
      shared_expenses = [dinner],
      expense_participants = [participant_a, participant_b],
      settlements = []\<rparr>"

text \<open>A request of the given user that reaches the database.\<close>

definition request_of :: "string \<Rightarrow> string \<Rightarrow> request" where
  "request_of uid email =
     \<lparr>auth_uid = Some uid, auth_email = Some email, request_error = None,
      gen_random_uuid = ''s-new'', server_now = ''2025-06-28T18:00:00Z'',
      client_now = ''2025-06-28T18:00:01Z''\<rparr>"

text \<open>A cancelled settlement from B to A, and the store that holds it.\<close>

definition cancelled_settlement :: settlement_row where
  "cancelled_settlement =
     \<lparr>st_id = ''s1'', st_from_user_email = ''b@x.org'', st_to_user_email = ''a@x.org'',
      st_amount = 40, st_shared_expense_id = Some ''e1'', st_description = None,
      st_status = Cancelled, st_settled_at = None, st_created_at = ''2025-06-28T17:00:00Z''\<rparr>"

definition db_cancelled :: database where
  "db_cancelled = db_dinner\<lparr>settlements := [cancelled_settlement]\<rparr>"

text \<open>The settlement B asks for, with the given amount.\<close>

definition pay_a :: "real \<Rightarrow> settlement_input" where
  "pay_a amount =
     \<lparr>in_to_user_email = ''a@x.org'', in_amount = amount,
      in_shared_expense_id = Some ''e1'', in_description = None\<rparr>"



section \<open>Rounding\<close>

lemma floor_log2_iff:
  "0 < x \<Longrightarrow> \<lfloor>log 2 x\<rfloor> = k \<longleftrightarrow> 2 powi k \<le> x \<and> x < 2 powi (k + 1)"
  using floor_log_eq_powr_iff[of x 2 k] powr_real_of_int'[of 2 k] powr_real_of_int'[of 2 "k + 1"]
  by simp

lemma floor_log2_bounds:
  assumes "0 < x"
  shows "2 powi \<lfloor>log 2 x\<rfloor> \<le> x" and "x < 2 powi (\<lfloor>log 2 x\<rfloor> + 1)"
  using floor_log2_iff[OF assms, of "\<lfloor>log 2 x\<rfloor>"] by simp_all

lemma le_floor_log2: "0 < x \<Longrightarrow> k \<le> \<lfloor>log 2 x\<rfloor> \<longleftrightarrow> 2 powi k \<le> x"
  using le_log_iff[of 2 x "of_int k"] powr_real_of_int'[of 2 k] by (simp add: le_floor_iff)

lemma floor_log2_less: "0 < x \<Longrightarrow> \<lfloor>log 2 x\<rfloor> < k \<longleftrightarrow> x < 2 powi k"
  using le_floor_log2[of x k] by linarith

lemma ulp_pos: "0 < ulp x"
  by (simp add: ulp_def)

lemma rne_error: "\<bar>of_int (rne y) - y\<bar> \<le> 1 / 2"
  unfolding rne_def Let_def by (auto simp: abs_if) linarith+

lemma rne_of_int [simp]: "rne (of_int n) = n"
  by (simp add: rne_def)

lemma rne_bounds: "\<lfloor>y\<rfloor> \<le> rne y" "rne y \<le> \<lceil>y\<rceil>"
  unfolding rne_def Let_def by (auto simp: ceiling_def) linarith+

lemma expo_ge: "emin \<le> expo x"
  by (simp add: expo_def)

lemma expo_normal: "x \<noteq> 0 \<Longrightarrow> 2 powi emin \<le> \<bar>x\<bar> \<Longrightarrow> expo x = \<lfloor>log 2 \<bar>x\<bar>\<rfloor>"
  using le_floor_log2[of "\<bar>x\<bar>" emin] by (simp add: expo_def)

lemma expo_subnormal: "x \<noteq> 0 \<Longrightarrow> \<bar>x\<bar> < 2 powi emin \<Longrightarrow> expo x = emin"
  using floor_log2_less[of "\<bar>x\<bar>" emin] by (simp add: expo_def)

lemma ulp_le:
  assumes "x \<noteq> 0" and "2 powi emin \<le> \<bar>x\<bar>"
  shows "ulp x \<le> \<bar>x\<bar> / 2 ^ 52"
proof -
  have pos: "0 < \<bar>x\<bar>" using assms by simp
  have "ulp x = 2 powi \<lfloor>log 2 \<bar>x\<bar>\<rfloor> / 2 ^ 52"
    by (simp add: ulp_def expo_normal[OF assms] power_int_diff)
  also have "\<dots> \<le> \<bar>x\<bar> / 2 ^ 52"
    using floor_log2_bounds(1)[OF pos] by (simp add: divide_right_mono)
  finally show ?thesis .
qed

lemma ulp_subnormal:
  "x \<noteq> 0 \<Longrightarrow> \<bar>x\<bar> < 2 powi emin \<Longrightarrow> ulp x = 2 powi (emin - 52)"
  by (simp add: ulp_def expo_subnormal)

lemma rounding_error:
  "\<bar>of_int (rne (x / ulp x)) * ulp x - x\<bar> \<le> ulp x / 2"
proof -
  have "of_int (rne (x / ulp x)) * ulp x - x = (of_int (rne (x / ulp x)) - x / ulp x) * ulp x"
    using ulp_pos[of x] by (simp add: field_simps)
  then have "\<bar>of_int (rne (x / ulp x)) * ulp x - x\<bar> = \<bar>of_int (rne (x / ulp x)) - x / ulp x\<bar> * ulp x"
    using ulp_pos[of x] by (simp add: abs_mult)
  also have "\<dots> \<le> (1 / 2) * ulp x"
    using rne_error[of "x / ulp x"] ulp_pos[of x] by (intro mult_right_mono) simp_all
  finally show ?thesis by simp
qed

lemma half_ulp_le: "x \<noteq> 0 \<Longrightarrow> ulp x / 2 \<le> eps64 * \<bar>x\<bar> + eta64"
proof (cases "2 powi emin \<le> \<bar>x\<bar>")
  case True
  assume "x \<noteq> 0"
  from ulp_le[OF this True] have "ulp x / 2 \<le> \<bar>x\<bar> / 2 ^ 52 / 2" by simp
  also have "\<dots> = eps64 * \<bar>x\<bar>" by (simp add: eps64_def)
  also have "\<dots> \<le> eps64 * \<bar>x\<bar> + eta64" by (simp add: eta64_def)
  finally show ?thesis .
next
  case False
  assume "x \<noteq> 0"
  with False have "ulp x = 2 powi (emin - 52)" by (simp add: ulp_subnormal)
  then have "ulp x / 2 = eta64"
    by (simp add: eta64_def power_int_diff)
  moreover have "0 \<le> eps64 * \<bar>x\<bar>" by (simp add: eps64_def)
  ultimately show ?thesis by simp
qed

lemma ulp_mono_bound:
  assumes "x \<noteq> 0" "\<bar>x\<bar> < 2 powi k" "emin < k"
  shows "ulp x \<le> 2 powi (k - 53)"
proof -
  have "\<lfloor>log 2 \<bar>x\<bar>\<rfloor> < k" using assms by (simp add: floor_log2_less)
  then have "expo x \<le> k - 1" using assms(3) by (simp add: expo_def)
  then show ?thesis unfolding ulp_def by (intro power_int_increasing) simp_all
qed

lemma round64_error:
  assumes "\<bar>x\<bar> \<le> huge / 2"
  shows "\<exists>r. round64 x = Fin r \<and> \<bar>r - x\<bar> \<le> eps64 * \<bar>x\<bar> + eta64"
proof (cases "x = 0")
  case True
  then show ?thesis by (simp add: round64_def eps64_def eta64_def)
next
  case False
  let ?r = "of_int (rne (x / ulp x)) * ulp x"
  have e: "\<bar>?r - x\<bar> \<le> ulp x / 2" by (rule rounding_error)
  have h: "huge / 2 = 2 powi 1023" by (simp add: huge_def)
  have "(2::real) powi 1023 < 2 powi 1024" by (intro power_int_strict_increasing) simp_all
  with assms h have "\<bar>x\<bar> < 2 powi 1024" by linarith
  from ulp_mono_bound[OF False this] have "ulp x \<le> 2 powi 971" by (simp add: emin_def)
  also have "(2::real) powi 971 < 2 powi 1023" by (intro power_int_strict_increasing) simp_all
  finally have "ulp x / 2 < huge / 2" using h ulp_pos[of x] by linarith
  with e assms have "\<bar>?r\<bar> < huge" by linarith
  then have "round64 x = Fin ?r" using False by (simp add: round64_def Let_def)
  moreover have "\<bar>?r - x\<bar> \<le> eps64 * \<bar>x\<bar> + eta64"
    using e half_ulp_le[OF False] by linarith
  ultimately show ?thesis by blast
qed

text \<open>Representable values are fixed.\<close>
lemma round64_representable:
  assumes x: "x = of_int m * 2 powi k" and m: "\<bar>m\<bar> < 2 ^ 53" and k: "emin - 52 \<le> k"
    and h: "\<bar>x\<bar> < huge"
  shows "round64 x = Fin x"
proof (cases "x = 0")
  case True
  then show ?thesis by (simp add: round64_def)
next
  case False
  then have m0: "m \<noteq> 0" using x by auto
  have pos: "0 < \<bar>x\<bar>" using False by simp
  have "\<bar>x\<bar> = of_int \<bar>m\<bar> * 2 powi k" by (simp add: x abs_mult)
  also have "\<dots> < 2 ^ 53 * 2 powi k"
  proof -
    have "(of_int \<bar>m\<bar> :: real) < 2 ^ 53" using m by (metis of_int_less_numeral_power_cancel_iff)
    then show ?thesis by (intro mult_strict_right_mono) simp_all
  qed
  also have "\<dots> = 2 powi (k + 53)" by (simp add: power_int_add)
  finally have "\<lfloor>log 2 \<bar>x\<bar>\<rfloor> < k + 53" using pos by (simp add: floor_log2_less)
  then have ex: "expo x - 52 \<le> k" using k by (simp add: expo_def)
  define j where "j = nat (k - (expo x - 52))"
  have kj: "k = (expo x - 52) + int j" using ex by (simp add: j_def)
  have "x / ulp x = of_int m * 2 powi k / 2 powi (expo x - 52)" by (simp add: x ulp_def)
  also have "\<dots> = of_int m * 2 ^ j"
    by (subst kj) (simp add: power_int_add power_int_of_nat del: power_int_diff)
  also have "\<dots> = of_int (m * 2 ^ j)" by simp
  finally have q: "x / ulp x = of_int (m * 2 ^ j)" .
  have "of_int (rne (x / ulp x)) * ulp x = x / ulp x * ulp x"
    unfolding q rne_of_int ..
  also have "\<dots> = x" using ulp_pos[of x] by simp
  finally have r: "of_int (rne (x / ulp x)) * ulp x = x" .
  show ?thesis using False h by (simp add: round64_def Let_def r)
qed

text \<open>Rounding does not pass a representable bound.\<close>
lemma round64_le_representable:
  assumes c: "c = of_int m * 2 powi k" and m: "0 < m" "m < 2 ^ 53" and k: "emin - 52 \<le> k"
    and h: "c < huge" and x: "\<bar>x\<bar> \<le> c"
  shows "\<exists>r. round64 x = Fin r \<and> \<bar>r\<bar> \<le> c"
proof (cases "x = 0")
  case True
  have "0 \<le> c" using c m by simp
  with True show ?thesis by (simp add: round64_def)
next
  case False
  have pos: "0 < \<bar>x\<bar>" using False by simp
  have "c < 2 ^ 53 * 2 powi k"
  proof -
    have "(of_int m :: real) < 2 ^ 53" using m by (metis of_int_less_numeral_power_cancel_iff)
    then show ?thesis unfolding c by (intro mult_strict_right_mono) simp_all
  qed
  also have "\<dots> = 2 powi (k + 53)" by (simp add: power_int_add)
  finally have "\<bar>x\<bar> < 2 powi (k + 53)" using x by simp
  then have "\<lfloor>log 2 \<bar>x\<bar>\<rfloor> < k + 53" using pos by (simp add: floor_log2_less)
  then have ex: "expo x - 52 \<le> k" using k by (simp add: expo_def)
  define j where "j = nat (k - (expo x - 52))"
  have kj: "k = (expo x - 52) + int j" using ex by (simp add: j_def)
  have "c / ulp x = of_int m * 2 powi k / 2 powi (expo x - 52)" by (simp add: c ulp_def)
  also have "\<dots> = of_int m * 2 ^ j"
    by (subst kj) (simp add: power_int_add power_int_of_nat del: power_int_diff)
  also have "\<dots> = of_int (m * 2 ^ j)" by simp
  finally have q: "c / ulp x = of_int (m * 2 ^ j)" .
  let ?n = "m * 2 ^ j"
  have "\<bar>x / ulp x\<bar> \<le> c / ulp x"
    using x ulp_pos[of x] by (simp add: divide_right_mono)
  then have b: "x / ulp x \<le> of_int ?n" "- of_int ?n \<le> x / ulp x"
    unfolding q by linarith+
  have "rne (x / ulp x) \<le> \<lceil>x / ulp x\<rceil>" by (rule rne_bounds)
  also have "\<dots> \<le> ?n" using b(1) by (simp add: ceiling_le_iff)
  finally have up: "rne (x / ulp x) \<le> ?n" .
  have "- ?n \<le> \<lfloor>x / ulp x\<rfloor>" using b(2) by (simp add: le_floor_iff)
  also have "\<dots> \<le> rne (x / ulp x)" by (rule rne_bounds)
  finally have lo: "- ?n \<le> rne (x / ulp x)" .
  from up lo have "\<bar>rne (x / ulp x)\<bar> \<le> ?n" by linarith
  then have "\<bar>of_int (rne (x / ulp x)) :: real\<bar> \<le> of_int ?n"
    by (metis of_int_abs of_int_le_iff)
  then have "\<bar>of_int (rne (x / ulp x)) * ulp x\<bar> \<le> of_int ?n * ulp x"
    using ulp_pos[of x] by (simp add: abs_mult mult_right_mono)
  also have "of_int ?n * ulp x = c"
    using q ulp_pos[of x] by (metis less_irrefl nonzero_eq_divide_eq)
  finally have r: "\<bar>of_int (rne (x / ulp x)) * ulp x\<bar> \<le> c" .
  with h have "round64 x = Fin (of_int (rne (x / ulp x)) * ulp x)"
    using False by (simp add: round64_def Let_def)
  with r show ?thesis by blast
qed

lemma rne_nonneg: "0 \<le> y \<Longrightarrow> 0 \<le> rne y"
proof -
  assume "0 \<le> y"
  then have "0 \<le> \<lfloor>y\<rfloor>" by simp
  with rne_bounds(1)[of y] show ?thesis by linarith
qed

lemma round64_nonneg:
  assumes "0 \<le> x" "round64 x = Fin r"
  shows "0 \<le> r"
proof (cases "x = 0")
  case True
  with assms show ?thesis by (simp add: round64_def)
next
  case False
  have "0 \<le> x / ulp x" using assms(1) ulp_pos[of x] by simp
  then have "0 \<le> rne (x / ulp x)" by (rule rne_nonneg)
  then have "0 \<le> of_int (rne (x / ulp x)) * ulp x" using ulp_pos[of x] by simp
  with assms(2) False show ?thesis
    by (auto simp: round64_def Let_def split: if_splits)
qed

text \<open>Doubling commutes with rounding in the normal range.\<close>
lemma round64_double:
  assumes n: "2 powi emin \<le> \<bar>x\<bar>" and r: "round64 x = Fin r" and b: "\<bar>r\<bar> < huge / 2"
  shows "round64 (2 * x) = Fin (2 * r)"
proof -
  have x0: "x \<noteq> 0"
  proof
    assume "x = 0"
    with n have "(2::real) powi emin \<le> 0" by simp
    then show False using zero_less_power_int[of "2::real" emin] by linarith
  qed
  have pos: "0 < \<bar>x\<bar>" using x0 by simp
  have l: "\<lfloor>log 2 \<bar>2 * x\<bar>\<rfloor> = \<lfloor>log 2 \<bar>x\<bar>\<rfloor> + 1"
  proof -
    have "log 2 \<bar>2 * x\<bar> = log 2 \<bar>x\<bar> + 1"
      using pos by (simp add: abs_mult log_mult_pos)
    then show ?thesis by simp
  qed
  have e1: "expo x = \<lfloor>log 2 \<bar>x\<bar>\<rfloor>" by (rule expo_normal[OF x0 n])
  have "emin \<le> \<lfloor>log 2 \<bar>x\<bar>\<rfloor>" using e1 expo_ge[of x] by simp
  then have e2: "expo (2 * x) = expo x + 1" unfolding expo_def l by simp
  have "expo x + 1 - 52 = (expo x - 52) + 1" by simp
  then have "ulp (2 * x) = 2 powi ((expo x - 52) + 1)" by (simp only: ulp_def e2)
  also have "\<dots> = 2 powi (expo x - 52) * 2" by (rule power_int_add_1) simp
  finally have u: "ulp (2 * x) = 2 * ulp x" by (simp only: ulp_def mult.commute)
  then have q: "(2 * x) / ulp (2 * x) = x / ulp x" by simp
  have rx: "r = of_int (rne (x / ulp x)) * ulp x"
    using r x0 by (auto simp: round64_def Let_def split: if_splits)
  have "of_int (rne (2 * x / ulp (2 * x))) * ulp (2 * x) = 2 * r"
    unfolding q u rx by simp
  moreover have "\<bar>2 * r\<bar> < huge" using b by simp
  ultimately show ?thesis using x0 by (simp add: round64_def Let_def)
qed

lemma eps64_bounds: "0 < eps64" "eps64 \<le> 1"
  by (simp_all add: eps64_def)

lemma eta64_pos: "0 < eta64"
  by (simp add: eta64_def)

lemma eta64_le: "eta64 \<le> 1 / 2 ^ 100"
proof -
  have "(2::real) powi (emin - 53) \<le> 2 powi (- 100)"
    by (intro power_int_increasing) (simp_all add: emin_def)
  then show ?thesis by (simp add: eta64_def power_int_minus field_simps)
qed

lemma huge_ge: "2 ^ 100 \<le> huge"
  by (simp add: huge_def)

text \<open>The rounding of a number whose binade is known.\<close>

lemma round64_eval:
  assumes lo: "2 powi e \<le> \<bar>x\<bar>" and hi: "\<bar>x\<bar> < 2 powi (e + 1)" and e: "emin \<le> e" "e \<le> 1022"
  shows "round64 x = Fin (of_int (rne (x / 2 powi (e - 52))) * 2 powi (e - 52))"
proof -
  have pos: "0 < \<bar>x\<bar>" using lo zero_less_power_int[of "2::real" e] by linarith
  then have x0: "x \<noteq> 0" by simp
  have "\<lfloor>log 2 \<bar>x\<bar>\<rfloor> = e" using lo hi by (simp add: floor_log2_iff[OF pos])
  then have ex: "expo x = e" using e by (simp add: expo_def)
  have "(2::real) powi (e + 1) \<le> 2 powi 1023"
    using e by (intro power_int_increasing) simp_all
  then have "\<bar>x\<bar> \<le> huge / 2" using hi by (simp add: huge_def)
  from round64_error[OF this] obtain r where "round64 x = Fin r" by blast
  then show ?thesis
    using x0 by (auto simp: round64_def Let_def ulp_def ex split: if_splits)
qed

text \<open>The sum of a list as the program adds it, from the left, starting from 0.\<close>

lemma fsum_error:
  fixes M \<delta> :: real
  assumes d: "\<delta> = 2 * eps64 * M + eta64" and nd: "real n * \<delta> \<le> M" and M: "2 * M \<le> huge / 2"
  shows "length xs \<le> n \<Longrightarrow> \<forall>x\<in>set xs. is_fin (f x) \<Longrightarrow>
     sum_list (map (\<lambda>x. \<bar>the_fin (f x)\<bar>) xs) \<le> M \<Longrightarrow>
     \<exists>r. foldl (\<lambda>s p. jadd s (f p)) (Fin 0) xs = Fin r \<and>
         \<bar>r - sum_list (map (\<lambda>x. the_fin (f x)) xs)\<bar> \<le> real (length xs) * \<delta>"
proof (induction xs rule: rev_induct)
  case Nil
  then show ?case by simp
next
  case (snoc x xs)
  obtain v where v: "f x = Fin v" using snoc.prems(2) by (cases "f x") auto
  let ?S = "sum_list (map (\<lambda>x. the_fin (f x)) xs)"
  let ?A = "sum_list (map (\<lambda>x. \<bar>the_fin (f x)\<bar>) xs)"
  have A0: "0 \<le> ?A" by (intro sum_list_nonneg) auto
  have AM: "?A + \<bar>v\<bar> \<le> M" using snoc.prems(3) by (simp add: v)
  then have M0: "0 \<le> M" using A0 by linarith
  have d0: "0 \<le> \<delta>" unfolding d using M0 eps64_bounds(1) eta64_pos by simp
  have len: "length xs \<le> n" using snoc.prems(1) by simp
  have "\<exists>r. foldl (\<lambda>s p. jadd s (f p)) (Fin 0) xs = Fin r \<and> \<bar>r - ?S\<bar> \<le> real (length xs) * \<delta>"
    using snoc.IH[OF len] snoc.prems(2) AM by simp
  then obtain r where r: "foldl (\<lambda>s p. jadd s (f p)) (Fin 0) xs = Fin r"
    and re: "\<bar>r - ?S\<bar> \<le> real (length xs) * \<delta>" by blast
  have "real (length xs) * \<delta> \<le> real n * \<delta>"
    using len d0 by (intro mult_right_mono) simp_all
  with nd have ld: "real (length xs) * \<delta> \<le> M" by linarith
  have SA: "\<bar>?S\<bar> \<le> ?A" by (rule sum_list_abs[of "map (\<lambda>x. the_fin (f x)) xs", simplified o_def map_map])
  have b: "\<bar>r + v\<bar> \<le> 2 * M" using re ld SA AM by linarith
  with M have "\<bar>r + v\<bar> \<le> huge / 2" by linarith
  from round64_error[OF this] obtain r' where r': "round64 (r + v) = Fin r'"
    and e': "\<bar>r' - (r + v)\<bar> \<le> eps64 * \<bar>r + v\<bar> + eta64" by blast
  have "eps64 * \<bar>r + v\<bar> \<le> eps64 * (2 * M)"
    using b eps64_bounds(1) by (intro mult_left_mono) simp_all
  with e' have e2: "\<bar>r' - (r + v)\<bar> \<le> \<delta>" unfolding d by linarith
  have "foldl (\<lambda>s p. jadd s (f p)) (Fin 0) (xs @ [x]) = Fin r'"
    by (simp add: r v r')
  moreover have "\<bar>r' - sum_list (map (\<lambda>x. the_fin (f x)) (xs @ [x]))\<bar> \<le> real (length (xs @ [x])) * \<delta>"
    using e2 re by (simp add: v algebra_simps)
  ultimately show ?case by blast
qed

text \<open>Whole numbers below \<open>2 ^ 53\<close> are added without error.\<close>

lemma whole_sum:
  "\<forall>x\<in>set xs. 0 \<le> g x \<and> g x = of_int \<lfloor>g x\<rfloor> \<Longrightarrow>
   \<exists>m. 0 \<le> m \<and> sum_list (map g xs) = (of_int m :: real)"
proof (induction xs)
  case Nil
  show ?case by (intro exI[of _ 0]) simp
next
  case (Cons a xs)
  then obtain m where m: "0 \<le> m" "sum_list (map g xs) = of_int m" by auto
  have a: "0 \<le> \<lfloor>g a\<rfloor>" "g a = of_int \<lfloor>g a\<rfloor>" using Cons.prems by auto
  show ?case
  proof (intro exI[of _ "\<lfloor>g a\<rfloor> + m"] conjI)
    show "0 \<le> \<lfloor>g a\<rfloor> + m" using a(1) m(1) by linarith
    have "sum_list (map g (a # xs)) = of_int \<lfloor>g a\<rfloor> + of_int m"
      using a(2) m(2) by simp
    then show "sum_list (map g (a # xs)) = of_int (\<lfloor>g a\<rfloor> + m)" by simp
  qed
qed

lemma round64_whole:
  assumes "0 \<le> m" and "(of_int m :: real) < 2 ^ 53"
  shows "round64 (of_int m) = Fin (of_int m)"
proof (rule round64_representable[of _ m 0])
  show "(of_int m :: real) = of_int m * 2 powi 0" by simp
  have "m < 2 ^ 53" using assms(2) by (metis of_int_less_numeral_power_cancel_iff)
  then show "\<bar>m\<bar> < 2 ^ 53" using assms(1) by simp
  show "emin - 52 \<le> 0" by (simp add: emin_def)
  have "(2::real) ^ 53 \<le> 2 ^ 100" by simp
  then show "\<bar>of_int m :: real\<bar> < huge" using assms huge_ge by simp
qed

lemma fsum_whole:
  "\<forall>x\<in>set xs. is_fin (f x) \<and> 0 \<le> the_fin (f x) \<and> the_fin (f x) = of_int \<lfloor>the_fin (f x)\<rfloor> \<Longrightarrow>
   sum_list (map (\<lambda>x. the_fin (f x)) xs) < 2 ^ 53 \<Longrightarrow>
   foldl (\<lambda>s p. jadd s (f p)) (Fin 0) xs = Fin (sum_list (map (\<lambda>x. the_fin (f x)) xs))"
proof (induction xs rule: rev_induct)
  case Nil
  show ?case by simp
next
  case (snoc x xs)
  obtain v where v: "f x = Fin v" using snoc.prems(1) by (cases "f x") auto
  have v0: "0 \<le> v" using snoc.prems(1) v by auto
  let ?S = "sum_list (map (\<lambda>x. the_fin (f x)) xs)"
  have "?S < 2 ^ 53" using snoc.prems(2) v0 by (simp add: v)
  then have IH: "foldl (\<lambda>s p. jadd s (f p)) (Fin 0) xs = Fin ?S"
    using snoc.IH snoc.prems(1) by simp
  obtain m where m: "0 \<le> m" "sum_list (map (\<lambda>x. the_fin (f x)) (xs @ [x])) = of_int m"
    using whole_sum[of "xs @ [x]" "\<lambda>x. the_fin (f x)"] snoc.prems(1) by auto
  have "round64 (?S + v) = Fin (?S + v)"
    using round64_whole[OF m(1)] snoc.prems(2) m(2) by (simp add: v)
  then show ?case by (simp add: IH v)
qed

text \<open>A product or a number, rounded, then divided by a number from 1 on, and rounded again.\<close>

lemma two_roundings:
  assumes x: "\<bar>x\<bar> \<le> huge / 8" and d: "1 \<le> d"
  shows "\<exists>y a. round64 x = Fin y \<and> round64 (y / d) = Fin a \<and> (0 \<le> x \<longrightarrow> 0 \<le> a) \<and>
            \<bar>a - x / d\<bar> \<le> 3 * eps64 * \<bar>x / d\<bar> + 3 * eta64"
proof -
  have h: "1 \<le> huge / 8" using huge_ge by simp
  have "\<bar>x\<bar> \<le> huge / 2" using x h by linarith
  from round64_error[OF this] obtain y where y: "round64 x = Fin y"
    and ye: "\<bar>y - x\<bar> \<le> eps64 * \<bar>x\<bar> + eta64" by blast
  have y0: "0 \<le> y" if "0 \<le> x" by (rule round64_nonneg[OF that y])
  have "eps64 * \<bar>x\<bar> \<le> 1 * \<bar>x\<bar>" using eps64_bounds(2) by (intro mult_right_mono) simp_all
  moreover have "eta64 \<le> 1" using eta64_le by simp
  ultimately have "\<bar>y\<bar> \<le> 2 * \<bar>x\<bar> + 1" using ye by linarith
  then have yh: "\<bar>y\<bar> \<le> huge / 2" using x h by linarith
  let ?z = "x / d"
  let ?e = "(y - x) / d"
  have yd: "y / d = ?z + ?e" by (simp add: diff_divide_distrib)
  have "\<bar>?e\<bar> = \<bar>y - x\<bar> / d" using d by simp
  also have "\<dots> \<le> (eps64 * \<bar>x\<bar> + eta64) / d" using ye d by (intro divide_right_mono) simp_all
  also have "\<dots> = eps64 * \<bar>?z\<bar> + eta64 / d" using d by (simp add: add_divide_distrib)
  also have "\<dots> \<le> eps64 * \<bar>?z\<bar> + eta64"
  proof -
    have "eta64 / d \<le> eta64 / 1" using d eta64_pos by (intro divide_left_mono) simp_all
    then show ?thesis by simp
  qed
  finally have ee: "\<bar>?e\<bar> \<le> eps64 * \<bar>?z\<bar> + eta64" .
  have "\<bar>y / d\<bar> = \<bar>y\<bar> / d" using d by simp
  also have "\<dots> \<le> \<bar>y\<bar> / 1" using d by (intro divide_left_mono) simp_all
  finally have "\<bar>y / d\<bar> \<le> \<bar>y\<bar>" by simp
  then have "\<bar>y / d\<bar> \<le> huge / 2" using yh by linarith
  from round64_error[OF this] obtain a where a: "round64 (y / d) = Fin a"
    and ae: "\<bar>a - y / d\<bar> \<le> eps64 * \<bar>y / d\<bar> + eta64" by blast
  have a0: "0 \<le> a" if "0 \<le> x"
  proof -
    have "0 \<le> y / d" using y0[OF that] d by simp
    then show ?thesis using a by (rule round64_nonneg)
  qed
  have tri: "\<bar>y / d\<bar> \<le> \<bar>?z\<bar> + \<bar>?e\<bar>" unfolding yd by linarith
  have "eps64 * \<bar>y / d\<bar> \<le> eps64 * (\<bar>?z\<bar> + \<bar>?e\<bar>)"
    using eps64_bounds(1) by (intro mult_left_mono[OF tri]) simp
  also have "\<dots> = eps64 * \<bar>?z\<bar> + eps64 * \<bar>?e\<bar>" by (simp add: algebra_simps)
  also have "\<dots> \<le> eps64 * \<bar>?z\<bar> + 1 * \<bar>?e\<bar>"
    using eps64_bounds(2) by (intro add_left_mono mult_right_mono) simp_all
  finally have "\<bar>a - y / d\<bar> \<le> eps64 * \<bar>?z\<bar> + \<bar>?e\<bar> + eta64" using ae by linarith
  then have "\<bar>a - ?z\<bar> \<le> eps64 * \<bar>?z\<bar> + 2 * \<bar>?e\<bar> + eta64" unfolding yd by linarith
  with ee have "\<bar>a - ?z\<bar> \<le> 3 * eps64 * \<bar>?z\<bar> + 3 * eta64" by linarith
  with y a a0 show ?thesis by blast
qed

text \<open>Whole numbers and dyadic fractions of at most 53 bits are numbers of the format.\<close>

lemma round64_numeral [simp]:
  "numeral n < (2::real) ^ 53 \<Longrightarrow> round64 (numeral n) = Fin (numeral n)"
  using round64_whole[of "numeral n"] by simp

lemma round64_one [simp]: "round64 1 = Fin 1"
  using round64_whole[of 1] by simp

lemma round64_zero [simp]: "round64 0 = Fin 0"
  by (simp add: round64_def)

lemma round64_dyadic:
  assumes "\<bar>m\<bar> < 2 ^ 53" and "n \<le> 1000"
  shows "round64 (of_int m / 2 ^ n) = Fin (of_int m / 2 ^ n)"
proof (rule round64_representable[of _ m "- int n"])
  show "(of_int m :: real) / 2 ^ n = of_int m * 2 powi (- int n)"
    by (simp add: power_int_minus field_simps)
  show "\<bar>m\<bar> < 2 ^ 53" by fact
  show "emin - 52 \<le> - int n" using assms(2) by (simp add: emin_def)
  have "\<bar>of_int m :: real\<bar> < 2 ^ 53" using assms(1) by (metis of_int_abs of_int_less_numeral_power_cancel_iff)
  moreover have "\<bar>of_int m / 2 ^ n :: real\<bar> \<le> \<bar>of_int m\<bar> / 1"
    unfolding abs_divide by (intro divide_left_mono) simp_all
  moreover have "(2::real) ^ 53 \<le> 2 ^ 100" by simp
  ultimately show "\<bar>of_int m / 2 ^ n :: real\<bar> < huge" using huge_ge by linarith
qed

text \<open>Half of \<open>huge\<close> is a number of the format; \<open>huge\<close> itself rounds to infinity.\<close>

lemma huge_powi: "huge = 2 powi 1024"
  by (simp add: huge_def)

lemma round64_half_huge: "round64 (huge / 2) = Fin (huge / 2)"
proof (rule round64_representable[of _ 1 1023])
  have "(2::real) powi (1023 + 1) = 2 powi 1023 * 2" by (rule power_int_add_1) simp
  then show "huge / 2 = of_int 1 * 2 powi 1023" by (simp only: huge_powi) simp
  show "\<bar>1::int\<bar> < 2 ^ 53" by simp
  show "emin - 52 \<le> 1023" by (simp add: emin_def)
  have "0 < huge" using huge_ge by simp
  then show "\<bar>huge / 2\<bar> < huge" by simp
qed

lemma round64_quarter_huge: "round64 (huge / 4) = Fin (huge / 4)"
proof (rule round64_representable[of _ 1 1022])
  have "(2::real) powi (1022 + 1) = 2 powi 1022 * 2" by (rule power_int_add_1) simp
  moreover have "(2::real) powi (1023 + 1) = 2 powi 1023 * 2" by (rule power_int_add_1) simp
  ultimately show "huge / 4 = of_int 1 * 2 powi 1022" by (simp only: huge_powi) simp
  show "\<bar>1::int\<bar> < 2 ^ 53" by simp
  show "emin - 52 \<le> 1022" by (simp add: emin_def)
  have "0 < huge" using huge_ge by simp
  then show "\<bar>huge / 4\<bar> < huge" by simp
qed

lemma round64_huge: "round64 huge = PInf"
proof -
  have pos: "0 < huge" using huge_ge by simp
  have "\<lfloor>log 2 \<bar>huge\<bar>\<rfloor> = 1024"
  proof -
    have "(2::real) powi 1024 < 2 powi (1024 + 1)" by (intro power_int_strict_increasing) simp_all
    then show ?thesis using pos by (simp add: floor_log2_iff huge_powi)
  qed
  then have "expo huge = 1024" by (simp add: expo_def emin_def)
  then have u: "ulp huge = 2 powi 972" by (simp add: ulp_def)
  have "huge / 2 powi 972 = 2 powi (1024 - 972)"
    unfolding huge_powi by (rule power_int_diff[symmetric]) simp
  then have q: "huge / ulp huge = of_int (2 ^ 52)" unfolding u by simp
  have "of_int (rne (huge / ulp huge)) * ulp huge = huge / ulp huge * ulp huge"
    unfolding q rne_of_int ..
  also have "\<dots> = huge" using ulp_pos[of huge] by simp
  finally have r: "of_int (rne (huge / ulp huge)) * ulp huge = huge" .
  show ?thesis using pos by (simp add: round64_def Let_def r)
qed

section \<open>Properties of \<open>calculateParticipantAmounts\<close>\<close>

lemma length_calculateParticipantAmounts:
  "length (calculateParticipantAmounts ps t m) = length ps"
  by (simp add: calculateParticipantAmounts_def Let_def)

lemma or_else_Fin_0 [simp]: "or_else (Some (Fin x)) (Fin 0) = Fin x"
  by (simp add: or_else_def)

lemma or_else_idem: "or_else (Some (or_else v (Fin d))) (Fin d) = or_else v (Fin d)"
  unfolding or_else_def by (cases v) auto

lemma Fin_the_fin: "is_fin a \<Longrightarrow> Fin (the_fin a) = a"
  by (cases a) auto

subsection \<open>The equal split\<close>

lemma round64_100_3: "round64 (100 / 3) = Fin (4691249611844267 / 2 ^ 47)"
  using round64_eval[of 5 "100 / 3"] by (simp add: emin_def rne_def)

text \<open>
  C3, as the code has it: the function has no failure of its own. With the method
  \<open>equal\<close> an empty list of participants gives the empty list (the quotient by the
  length 0 is computed and never used). For a list of \<open>N\<close> participants the result has
  \<open>N\<close> elements, the participants in their order, and every one owes the same amount,
  the quotient \<open>totalAmount / N\<close> as the program computes it: for a finite total and
  \<open>N > 0\<close> that is the number of the format nearest to the total divided by \<open>N\<close>.
\<close>

theorem equal_split:
  "calculateParticipantAmounts [] tot ''equal'' = [] \<and>
   length (calculateParticipantAmounts ps tot ''equal'') = length ps \<and>
   (\<forall>i < length ps.
      calculateParticipantAmounts ps tot ''equal'' ! i
        = (ps ! i)\<lparr>amount_owed := Some (jdiv tot (Fin (real (length ps))))\<rparr>) \<and>
   (ps \<noteq> [] \<longrightarrow> jdiv (Fin t) (Fin (real (length ps))) = round64 (t / real (length ps)))"
  by (simp add: calculateParticipantAmounts_def Let_def)

text \<open>
  100 split equally among three participants: each owes 33.333333333333336, the
  number nearest to a third of 100, and 90 gives 30 each.
\<close>

theorem equal_split_witness:
  "map amount_owed
     (calculateParticipantAmounts
        [person ''a@x.org'' ''A'', person ''b@x.org'' ''B'', person ''c@x.org'' ''C'']
        (Fin 100) ''equal'')
   = [Some (Fin (4691249611844267 / 2 ^ 47)), Some (Fin (4691249611844267 / 2 ^ 47)),
      Some (Fin (4691249611844267 / 2 ^ 47))] \<and>
   map amount_owed
     (calculateParticipantAmounts
        [person ''a@x.org'' ''A'', person ''b@x.org'' ''B'', person ''c@x.org'' ''C'']
        (Fin 90) ''equal'')
   = [Some (Fin 30), Some (Fin 30), Some (Fin 30)]"
  using equal_split [of "Fin 100"
      "[person ''a@x.org'' ''A'', person ''b@x.org'' ''B'', person ''c@x.org'' ''C'']" 100]
    equal_split [of "Fin 90"
      "[person ''a@x.org'' ''A'', person ''b@x.org'' ''B'', person ''c@x.org'' ''C'']" 90]
  by (simp add: calculateParticipantAmounts_def Let_def round64_100_3)

text \<open>
  C3 as stated fails: the equal split of an empty list is not an error, it returns the
  empty list.
\<close>

theorem equal_split_empty_counterexample:
  "calculateParticipantAmounts ([] :: participant list) (Fin 100) ''equal'' = []"
  by (simp add: calculateParticipantAmounts_def)

subsection \<open>The split by percentage\<close>

text \<open>
  C8: with the method \<open>percentage\<close> the function returns a list for every input, one
  element per participant in the order of the input, whatever the percentages sum to.
  Every participant owes \<open>(totalAmount * (percentage || 0)) / 100\<close> as the program
  computes it, an absent percentage counting as 0. Where the total and the percentage
  are finite and their product is at most an eighth of the range of the format, that
  amount is a finite number that differs from the real \<open>total * percentage / 100\<close> by
  at most three units of roundoff.
\<close>

theorem percentage_split:
  "length (calculateParticipantAmounts ps tot ''percentage'') = length ps \<and>
   (\<forall>i < length ps.
      calculateParticipantAmounts ps tot ''percentage'' ! i
        = (ps ! i)\<lparr>amount_owed :=
             Some (jdiv (jmul tot (or_else (percentage (ps ! i)) (Fin 0))) (Fin 100))\<rparr>) \<and>
   (\<bar>t * q\<bar> \<le> huge / 8 \<longrightarrow>
      (\<exists>a. jdiv (jmul (Fin t) (Fin q)) (Fin 100) = Fin a \<and>
           \<bar>a - t * q / 100\<bar> \<le> 3 * eps64 * \<bar>t * q / 100\<bar> + 3 * eta64))"
proof -
  have "\<exists>a. jdiv (jmul (Fin t) (Fin q)) (Fin 100) = Fin a \<and>
           \<bar>a - t * q / 100\<bar> \<le> 3 * eps64 * \<bar>t * q / 100\<bar> + 3 * eta64"
    if "\<bar>t * q\<bar> \<le> huge / 8"
  proof -
    from two_roundings[OF that, of 100] obtain y a where
      "round64 (t * q) = Fin y" "round64 (y / 100) = Fin a"
      "\<bar>a - t * q / 100\<bar> \<le> 3 * eps64 * \<bar>t * q / 100\<bar> + 3 * eta64"
      by auto
    then show ?thesis by simp
  qed
  then show ?thesis by (simp add: calculateParticipantAmounts_def)
qed

text \<open>200 with the percentages 60 and 50, which sum to 110: the amounts are 120 and 100.\<close>

theorem percentage_split_witness:
  "map amount_owed
     (calculateParticipantAmounts
        [(person ''a@x.org'' ''A'')\<lparr>percentage := Some (Fin 60)\<rparr>,
         (person ''b@x.org'' ''B'')\<lparr>percentage := Some (Fin 50)\<rparr>]
        (Fin 200) ''percentage'')
     = [Some (Fin 120), Some (Fin 100)] \<and>
   sum_owed
     (calculateParticipantAmounts
        [(person ''a@x.org'' ''A'')\<lparr>percentage := Some (Fin 60)\<rparr>,
         (person ''b@x.org'' ''B'')\<lparr>percentage := Some (Fin 50)\<rparr>]
        (Fin 200) ''percentage'')
     = Fin 220 \<and>
   \<bar>(200::real) * 60\<bar> \<le> huge / 8 \<and>
   (\<exists>a. jdiv (jmul (Fin 200) (Fin 60)) (Fin 100) = Fin a \<and>
        \<bar>a - 200 * 60 / 100\<bar> \<le> 3 * eps64 * \<bar>200 * 60 / 100\<bar> + 3 * eta64)"
proof -
  have h: "\<bar>(200::real) * 60\<bar> \<le> huge / 8" using huge_ge by simp
  show ?thesis
    using percentage_split [of
      "[(person ''a@x.org'' ''A'')\<lparr>percentage := Some (Fin 60)\<rparr>,
        (person ''b@x.org'' ''B'')\<lparr>percentage := Some (Fin 50)\<rparr>]" "Fin 200" 200 60] h
    by (simp add: person_def calculateParticipantAmounts_def sum_owed_def)
qed

subsection \<open>What the function leaves alone\<close>

text \<open>
  C9: the result has the length and the order of the input, every element differs from
  the input element at its place in \<open>amount_owed\<close> at most, and a method that is none
  of the four literals gives the input back unchanged.
\<close>

theorem calculateParticipantAmounts_frame:
  "length (calculateParticipantAmounts ps tot m) = length ps \<and>
   map (\<lambda>p. p\<lparr>amount_owed := None\<rparr>) (calculateParticipantAmounts ps tot m)
     = map (\<lambda>p. p\<lparr>amount_owed := None\<rparr>) ps \<and>
   (m \<notin> {''equal'', ''percentage'', ''shares'', ''custom''} \<longrightarrow>
      calculateParticipantAmounts ps tot m = ps)"
  by (simp add: calculateParticipantAmounts_def Let_def o_def)

theorem calculateParticipantAmounts_frame_witness:
  "calculateParticipantAmounts
     [(person ''a@x.org'' ''A'')\<lparr>amount_owed := Some (Fin 7), shares := Some (Fin 2)\<rparr>]
     (Fin 90) ''exact''
   = [(person ''a@x.org'' ''A'')\<lparr>amount_owed := Some (Fin 7), shares := Some (Fin 2)\<rparr>]"
  using calculateParticipantAmounts_frame [of
      "[(person ''a@x.org'' ''A'')\<lparr>amount_owed := Some (Fin 7), shares := Some (Fin 2)\<rparr>]"
      "Fin 90" "''exact''"]
  by simp

subsection \<open>The split by shares\<close>

lemma huge_ge_1000: "1000 \<le> huge"
  using huge_ge by simp

lemma emin_le_one: "2 powi emin \<le> (1::real)"
proof -
  have "(2::real) powi emin \<le> 2 powi 0"
    by (intro power_int_increasing) (simp_all add: emin_def)
  then show ?thesis by simp
qed

lemma elem_le_sum_list_real:
  "\<forall>x\<in>set xs. (0::real) \<le> f x \<Longrightarrow> p \<in> set xs \<Longrightarrow> f p \<le> sum_list (map f xs)"
proof (induction xs)
  case Nil
  then show ?case by simp
next
  case (Cons a xs)
  have "0 \<le> sum_list (map f xs)" using Cons.prems(1) by (intro sum_list_nonneg) auto
  with Cons show ?case by auto
qed

lemma whole_shares_count:
  assumes "whole_shares p"
  shows "or_else (shares p) (Fin 1) = Fin (share_count p)"
    and "1 \<le> share_count p"
    and "share_count p = of_int \<lfloor>share_count p\<rfloor>"
proof -
  have "or_else (shares p) (Fin 1) = Fin (share_count p) \<and> 1 \<le> share_count p \<and>
      share_count p = of_int \<lfloor>share_count p\<rfloor>"
  proof (cases "shares p")
    case None
    then show ?thesis by (simp add: share_count_def or_else_def)
  next
    case (Some k)
    with assms obtain x where "k = Fin x" "1 \<le> x" "x = of_int \<lfloor>x\<rfloor>"
      by (cases k) (auto simp: whole_shares_def)
    with Some show ?thesis by (simp add: share_count_def or_else_def)
  qed
  then show "or_else (shares p) (Fin 1) = Fin (share_count p)" "1 \<le> share_count p"
    "share_count p = of_int \<lfloor>share_count p\<rfloor>" by simp_all
qed

lemma totalShares_whole:
  assumes "\<forall>p\<in>set ps. whole_shares p" and "sum_list (map share_count ps) < 2 ^ 53"
  shows "totalShares ps = Fin (sum_list (map share_count ps))"
proof -
  have "\<forall>p\<in>set ps. is_fin (or_else (shares p) (Fin 1)) \<and> 0 \<le> the_fin (or_else (shares p) (Fin 1))
      \<and> the_fin (or_else (shares p) (Fin 1)) = of_int \<lfloor>the_fin (or_else (shares p) (Fin 1))\<rfloor>"
  proof
    fix p assume "p \<in> set ps"
    with assms(1) have w: "whole_shares p" by simp
    show "is_fin (or_else (shares p) (Fin 1)) \<and> 0 \<le> the_fin (or_else (shares p) (Fin 1))
      \<and> the_fin (or_else (shares p) (Fin 1)) = of_int \<lfloor>the_fin (or_else (shares p) (Fin 1))\<rfloor>"
      using whole_shares_count[OF w] by simp
  qed
  moreover have eq: "map share_count ps = map (\<lambda>p. the_fin (or_else (shares p) (Fin 1))) ps"
    by (simp add: share_count_def)
  ultimately have "foldl (\<lambda>s p. jadd s (or_else (shares p) (Fin 1))) (Fin 0) ps
      = Fin (sum_list (map (\<lambda>p. the_fin (or_else (shares p) (Fin 1))) ps))"
    using assms(2) by (intro fsum_whole) (simp_all only: eq)
  then show ?thesis by (simp only: totalShares_def eq)
qed

lemma double_shares_whole:
  assumes w: "whole_shares p" and b: "share_count p < 2 ^ 52"
  shows "whole_shares (double_shares p)" and "share_count (double_shares p) = 2 * share_count p"
proof -
  note c = whole_shares_count[OF w]
  have e: "2 * share_count p = of_int (2 * \<lfloor>share_count p\<rfloor>)" using c(3) by simp
  have "0 \<le> 2 * \<lfloor>share_count p\<rfloor>" using c(2) by simp
  moreover have "(of_int (2 * \<lfloor>share_count p\<rfloor>) :: real) < 2 ^ 53" using b e by simp
  ultimately have "round64 (of_int (2 * \<lfloor>share_count p\<rfloor>)) = Fin (of_int (2 * \<lfloor>share_count p\<rfloor>))"
    by (rule round64_whole)
  then have r: "round64 (2 * share_count p) = Fin (2 * share_count p)" using e by simp
  have d: "shares (double_shares p) = Some (Fin (2 * share_count p))"
    by (simp add: double_shares_def c(1) r)
  have "\<lfloor>2 * share_count p\<rfloor> = 2 * \<lfloor>share_count p\<rfloor>"
    by (subst e) (simp only: floor_of_int)
  then show "whole_shares (double_shares p)"
    unfolding whole_shares_def d using c(2) e by simp
  show "share_count (double_shares p) = 2 * share_count p"
    unfolding share_count_def[of "double_shares p"] d using c(2) by (simp add: or_else_def)
qed

text \<open>
  Twice the share count over twice the sum gives the same amount: the product is twice
  as large, rounded to twice the number, and the quotient is the same real.
\<close>

lemma doubling_point:
  assumes k: "1 \<le> k" and r: "\<bar>t\<bar> * k \<le> huge / 8" and t: "t = 0 \<or> 2 powi emin \<le> \<bar>t\<bar>"
    and T: "T \<noteq> 0"
  shows "jdiv (jmul (Fin t) (Fin (2 * k))) (Fin (2 * T)) = jdiv (jmul (Fin t) (Fin k)) (Fin T)"
proof (cases "t = 0")
  case True
  then show ?thesis using T by simp
next
  case False
  with t have n: "2 powi emin \<le> \<bar>t\<bar>" by simp
  have "\<bar>t\<bar> * 1 \<le> \<bar>t\<bar> * k" using k by (intro mult_left_mono) simp_all
  then have n': "2 powi emin \<le> \<bar>t * k\<bar>" using n k by (simp add: abs_mult)
  have x: "\<bar>t * k\<bar> \<le> huge / 8" using r k by (simp add: abs_mult)
  then have "\<bar>t * k\<bar> \<le> huge / 2" using huge_ge_1000 by linarith
  from round64_error[OF this] obtain y where y: "round64 (t * k) = Fin y"
    and ye: "\<bar>y - t * k\<bar> \<le> eps64 * \<bar>t * k\<bar> + eta64" by blast
  have "eps64 * \<bar>t * k\<bar> \<le> 1 * \<bar>t * k\<bar>" using eps64_bounds(2) by (intro mult_right_mono) simp_all
  moreover have "eta64 \<le> 1" using eta64_le by simp
  ultimately have "\<bar>y\<bar> \<le> 2 * \<bar>t * k\<bar> + 1" using ye by linarith
  then have "\<bar>y\<bar> < huge / 2" using x huge_ge_1000 by linarith
  from round64_double[OF n' y this] have "round64 (t * (2 * k)) = Fin (2 * y)"
    by (simp only: mult.left_commute[of t 2 k])
  then show ?thesis using T y by simp
qed

text \<open>The amount of every participant, for every input.\<close>

lemma shares_split_formula:
  "length (calculateParticipantAmounts ps tot ''shares'') = length ps \<and>
   (\<forall>i < length ps.
      calculateParticipantAmounts ps tot ''shares'' ! i
        = (ps ! i)\<lparr>amount_owed :=
             Some (jdiv (jmul tot (or_else (shares (ps ! i)) (Fin 1))) (totalShares ps))\<rparr>)"
  by (simp add: calculateParticipantAmounts_def)

text \<open>
  C7, as the code has it. Take share counts that are whole numbers from 1 on where they
  are given (a participant without one counts as 1), with a sum \<open>T\<close> below \<open>2 ^ 52\<close>, and
  a finite total whose product with every share count is at most an eighth of the range
  of the format. Then the sum the function computes is \<open>T\<close> exactly, and the participant
  with share count \<open>k\<close> owes \<open>(totalAmount * k) / T\<close> as the program computes it, a finite
  number within three units of roundoff of the real \<open>total * k / T\<close>. If moreover the
  total is 0 or a normal number, doubling every share count leaves every amount as it
  was.
\<close>

theorem shares_split:
  assumes w: "\<forall>p \<in> set ps. whole_shares p"
    and s: "sum_list (map share_count ps) < 2 ^ 52"
    and r: "\<forall>p \<in> set ps. \<bar>t\<bar> * share_count p \<le> huge / 8"
  shows "totalShares ps = Fin (sum_list (map share_count ps)) \<and>
    (\<forall>i < length ps.
       \<exists>a. calculateParticipantAmounts ps (Fin t) ''shares'' ! i
              = (ps ! i)\<lparr>amount_owed := Some (Fin a)\<rparr> \<and>
            jdiv (jmul (Fin t) (Fin (share_count (ps ! i)))) (Fin (sum_list (map share_count ps)))
              = Fin a \<and>
            \<bar>a - t * share_count (ps ! i) / sum_list (map share_count ps)\<bar>
              \<le> 3 * eps64 * \<bar>t * share_count (ps ! i) / sum_list (map share_count ps)\<bar>
                  + 3 * eta64) \<and>
    (t = 0 \<or> 2 powi emin \<le> \<bar>t\<bar> \<longrightarrow>
       map amount_owed (calculateParticipantAmounts (map double_shares ps) (Fin t) ''shares'')
         = map amount_owed (calculateParticipantAmounts ps (Fin t) ''shares''))"
proof -
  let ?T = "sum_list (map share_count ps)"
  have k0: "\<forall>p \<in> set ps. 0 \<le> share_count p"
    using w whole_shares_count(2) by fastforce
  have kT: "share_count p \<le> ?T" if "p \<in> set ps" for p
    using elem_le_sum_list_real[OF k0 that] .
  have T1: "1 \<le> ?T" if "p \<in> set ps" for p
    using kT[OF that] whole_shares_count(2)[of p] w that by fastforce
  have "?T < 2 ^ 53" using s by simp
  from totalShares_whole[OF w this] have tot: "totalShares ps = Fin ?T" .
  have R: "calculateParticipantAmounts ps (Fin t) ''shares''
      = map (\<lambda>p. p\<lparr>amount_owed := Some (jdiv (jmul (Fin t) (Fin (share_count p))) (Fin ?T))\<rparr>) ps"
    unfolding calculateParticipantAmounts_def tot
    using w by (simp add: whole_shares_count(1))
  have acc: "\<exists>a. calculateParticipantAmounts ps (Fin t) ''shares'' ! i
              = (ps ! i)\<lparr>amount_owed := Some (Fin a)\<rparr> \<and>
            jdiv (jmul (Fin t) (Fin (share_count (ps ! i)))) (Fin ?T) = Fin a \<and>
            \<bar>a - t * share_count (ps ! i) / ?T\<bar>
              \<le> 3 * eps64 * \<bar>t * share_count (ps ! i) / ?T\<bar> + 3 * eta64"
    if i: "i < length ps" for i
  proof -
    have m: "ps ! i \<in> set ps" using i by simp
    have "\<bar>t * share_count (ps ! i)\<bar> \<le> huge / 8"
      using r m k0 by (simp add: abs_mult)
    from two_roundings[OF this T1[OF m]] obtain y a where
      "round64 (t * share_count (ps ! i)) = Fin y" "round64 (y / ?T) = Fin a"
      "\<bar>a - t * share_count (ps ! i) / ?T\<bar>
         \<le> 3 * eps64 * \<bar>t * share_count (ps ! i) / ?T\<bar> + 3 * eta64"
      by blast
    moreover have "?T \<noteq> 0" using T1[OF m] by simp
    ultimately show ?thesis using i by (simp add: R)
  qed
  have dbl: "map amount_owed (calculateParticipantAmounts (map double_shares ps) (Fin t) ''shares'')
         = map amount_owed (calculateParticipantAmounts ps (Fin t) ''shares'')"
    if t: "t = 0 \<or> 2 powi emin \<le> \<bar>t\<bar>"
  proof -
    have kb: "share_count p < 2 ^ 52" if "p \<in> set ps" for p
      using kT[OF that] s by linarith
    have w2: "\<forall>p \<in> set (map double_shares ps). whole_shares p"
      using w kb double_shares_whole(1) by auto
    have c2: "map share_count (map double_shares ps) = map (\<lambda>p. 2 * share_count p) ps"
      using w kb double_shares_whole(2) by auto
    have "sum_list (map (\<lambda>p. 2 * share_count p) ps) = 2 * ?T"
      by (induction ps) simp_all
    then have s2: "sum_list (map share_count (map double_shares ps)) = 2 * ?T"
      by (simp only: c2)
    have "sum_list (map share_count (map double_shares ps)) < 2 ^ 53"
      unfolding s2 using s by simp
    from totalShares_whole[OF w2 this] have tot2: "totalShares (map double_shares ps) = Fin (2 * ?T)"
      by (simp only: s2)
    have "map amount_owed (calculateParticipantAmounts (map double_shares ps) (Fin t) ''shares'')
        = map (\<lambda>p. Some (jdiv (jmul (Fin t) (Fin (2 * share_count p))) (Fin (2 * ?T)))) ps"
      unfolding calculateParticipantAmounts_def tot2
      using w kb by (simp add: o_def whole_shares_count(1) double_shares_whole)
    also have "\<dots> = map (\<lambda>p. Some (jdiv (jmul (Fin t) (Fin (share_count p))) (Fin ?T))) ps"
    proof (rule map_cong[OF refl])
      fix p assume p: "p \<in> set ps"
      have "jdiv (jmul (Fin t) (Fin (2 * share_count p))) (Fin (2 * ?T))
          = jdiv (jmul (Fin t) (Fin (share_count p))) (Fin ?T)"
      proof (rule doubling_point)
        show "1 \<le> share_count p" using w p whole_shares_count(2) by blast
        show "\<bar>t\<bar> * share_count p \<le> huge / 8" using r p by simp
        show "t = 0 \<or> 2 powi emin \<le> \<bar>t\<bar>" by fact
        show "?T \<noteq> 0" using T1[OF p] by simp
      qed
      then show "Some (jdiv (jmul (Fin t) (Fin (2 * share_count p))) (Fin (2 * ?T)))
          = Some (jdiv (jmul (Fin t) (Fin (share_count p))) (Fin ?T))" by simp
    qed
    also have "\<dots> = map amount_owed (calculateParticipantAmounts ps (Fin t) ''shares'')"
      by (simp add: R o_def)
    finally show ?thesis .
  qed
  from tot acc dbl show ?thesis by blast
qed

text \<open>90 split by the shares 1 and 2: 30 and 60, and the same with the shares 2 and 4.\<close>

theorem shares_split_witness:
  "map amount_owed
     (calculateParticipantAmounts
        [(person ''a@x.org'' ''A'')\<lparr>shares := Some (Fin 1)\<rparr>,
         (person ''b@x.org'' ''B'')\<lparr>shares := Some (Fin 2)\<rparr>]
        (Fin 90) ''shares'')
   = [Some (Fin 30), Some (Fin 60)] \<and>
   map amount_owed
     (calculateParticipantAmounts
        (map double_shares
           [(person ''a@x.org'' ''A'')\<lparr>shares := Some (Fin 1)\<rparr>,
            (person ''b@x.org'' ''B'')\<lparr>shares := Some (Fin 2)\<rparr>])
        (Fin 90) ''shares'')
   = [Some (Fin 30), Some (Fin 60)]"
proof -
  let ?ps = "[(person ''a@x.org'' ''A'')\<lparr>shares := Some (Fin 1)\<rparr>,
              (person ''b@x.org'' ''B'')\<lparr>shares := Some (Fin 2)\<rparr>]"
  have w: "\<forall>p \<in> set ?ps. whole_shares p"
    by (simp add: whole_shares_def person_def)
  have c: "map share_count ?ps = [1, 2]"
    by (simp add: share_count_def or_else_def person_def)
  have s: "sum_list (map share_count ?ps) < 2 ^ 52"
    unfolding c by simp
  have r: "\<forall>p \<in> set ?ps. \<bar>90\<bar> * share_count p \<le> huge / 8"
    using c huge_ge by simp
  have n: "(90::real) = 0 \<or> 2 powi emin \<le> \<bar>90::real\<bar>"
    using emin_le_one by simp
  have o: "map amount_owed (calculateParticipantAmounts ?ps (Fin 90) ''shares'')
      = [Some (Fin 30), Some (Fin 60)]"
    by (simp add: calculateParticipantAmounts_def totalShares_def or_else_def person_def)
  from shares_split [OF w s r] n
  have "map amount_owed (calculateParticipantAmounts (map double_shares ?ps) (Fin 90) ''shares'')
      = map amount_owed (calculateParticipantAmounts ?ps (Fin 90) ''shares'')"
    by blast
  with o show ?thesis by simp
qed

text \<open>
  C7 as stated fails in two ways. A share count that is given as 0 counts as 1
  (\<open>p.shares || 1\<close>): of the total 100, the shares 0 and 1 give 50 and 50, where the
  claim has 0 and 100. And the product is computed before the quotient: with the total
  \<open>huge / 2\<close> (2 to the power 1023, a number of the format) the shares 1 and 1 give a
  quarter of \<open>huge\<close> each, and the doubled shares 2 and 2 give infinity twice.
\<close>

theorem shares_split_counterexample:
  "map amount_owed
     (calculateParticipantAmounts
        [(person ''a@x.org'' ''A'')\<lparr>shares := Some (Fin 0)\<rparr>,
         (person ''b@x.org'' ''B'')\<lparr>shares := Some (Fin 1)\<rparr>]
        (Fin 100) ''shares'')
   = [Some (Fin 50), Some (Fin 50)] \<and>
   map amount_owed
     (calculateParticipantAmounts
        [(person ''a@x.org'' ''A'')\<lparr>shares := Some (Fin 1)\<rparr>,
         (person ''b@x.org'' ''B'')\<lparr>shares := Some (Fin 1)\<rparr>]
        (Fin (huge / 2)) ''shares'')
   = [Some (Fin (huge / 4)), Some (Fin (huge / 4))] \<and>
   map amount_owed
     (calculateParticipantAmounts
        (map double_shares
           [(person ''a@x.org'' ''A'')\<lparr>shares := Some (Fin 1)\<rparr>,
            (person ''b@x.org'' ''B'')\<lparr>shares := Some (Fin 1)\<rparr>])
        (Fin (huge / 2)) ''shares'')
   = [Some PInf, Some PInf]"
  by (simp add: calculateParticipantAmounts_def totalShares_def or_else_def person_def
      double_shares_def round64_half_huge round64_quarter_huge round64_huge)

section \<open>Balances\<close>

lemma ep_join_se_dinner:
  "ep_join_se db_dinner = [(participant_a, dinner), (participant_b, dinner)]"
  by (simp add: ep_join_se_def db_dinner_def participant_a_def participant_b_def dinner_def)

lemma session_uid_for_dinner:
  "session_uid_for db_dinner (request_of u e) ''a@x.org'' = Some u"
  "session_uid_for db_dinner (request_of u e) ''b@x.org'' = Some u"
  by (simp_all add: session_uid_for_def db_dinner_def request_of_def)

lemma users_dinner:
  "email_of_user db_dinner ''uid-a'' = Some ''a@x.org''"
  "name_of_user db_dinner ''uid-a'' = Some ''A''"
  by (simp_all add: email_of_user_def name_of_user_def db_dinner_def)

lemma rows_dinner:
  "ep_user_email participant_a = ''a@x.org''" "ep_user_name participant_a = ''A''"
  "ep_amount_owed participant_a = 60" "ep_amount_paid participant_a = 0"
  "\<not> ep_is_settled participant_a"
  "ep_user_email participant_b = ''b@x.org''" "ep_user_name participant_b = ''B''"
  "ep_amount_owed participant_b = 40" "ep_amount_paid participant_b = 0"
  "\<not> ep_is_settled participant_b"
  "se_created_by dinner = ''uid-a''"
  by (simp_all add: participant_a_def participant_b_def dinner_def)

lemma user_owes_a:
  "user_owes db_dinner (request_of ''uid-a'' ''a@x.org'') ''a@x.org'' = [(Some ''b@x.org'', Some ''B'', - 40)]"
  by (simp add: user_owes_def ep_join_se_dinner session_uid_for_dinner rows_dinner)

lemma user_is_owed_a:
  "user_is_owed db_dinner ''a@x.org'' = [(Some ''a@x.org'', Some ''A'', 60)]"
  by (simp add: user_is_owed_def ep_join_se_dinner users_dinner rows_dinner)

lemma user_owes_b:
  "user_owes db_dinner (request_of ''uid-b'' ''b@x.org'') ''b@x.org'' = []"
  by (simp add: user_owes_def ep_join_se_dinner session_uid_for_dinner rows_dinner)

lemma user_is_owed_b:
  "user_is_owed db_dinner ''b@x.org'' = [(Some ''a@x.org'', Some ''A'', 40)]"
  by (simp add: user_is_owed_def ep_join_se_dinner users_dinner rows_dinner)

text \<open>
  C2 at its own scenario: A created the dinner of 100, B owes 40 and has paid nothing.
  The claim has B at +40 for A and A at -40 for B. The function returns the opposite
  signs: B at -40 for A (and A's own unsettled share as a balance of +60 with A), and A
  at +40 for B.
\<close>

theorem calculate_user_balance_signs:
  "calculate_user_balance db_dinner (request_of ''uid-a'' ''a@x.org'') ''a@x.org''
     = [\<lparr>ub_friend_email = Some ''b@x.org'', ub_friend_name = Some ''B'', balance = - 40\<rparr>,
        \<lparr>ub_friend_email = Some ''a@x.org'', ub_friend_name = Some ''A'', balance = 60\<rparr>] \<and>
   calculate_user_balance db_dinner (request_of ''uid-b'' ''b@x.org'') ''b@x.org''
     = [\<lparr>ub_friend_email = Some ''a@x.org'', ub_friend_name = Some ''A'', balance = 40\<rparr>]"
  by (simp add: calculate_user_balance_def user_owes_a user_is_owed_a user_owes_b user_is_owed_b
      full_outer_join_def join_on_def cte_amount_def cte_email_def cte_name_def coalesce_def)





section \<open>Settling a participant\<close>



lemma tables_dinner:
  "shared_expenses db_dinner = [dinner]"
  "expense_participants db_dinner = [participant_a, participant_b]"
  "settlements db_dinner = []"
  by (simp_all add: db_dinner_def)

lemma ids_dinner:
  "ep_id participant_a = ''p1''" "ep_id participant_b = ''p2''" "se_id dinner = ''e1''"
  by (simp_all add: participant_a_def participant_b_def dinner_def)

lemma fields_request_of:
  "auth_uid (request_of u e) = Some u" "auth_email (request_of u e) = Some e"
  "request_error (request_of u e) = None" "gen_random_uuid (request_of u e) = ''s-new''"
  "client_now (request_of u e) = ''2025-06-28T18:00:01Z''"
  "server_now (request_of u e) = ''2025-06-28T18:00:00Z''"
  by (simp_all add: request_of_def)







section \<open>The status of a settlement\<close>

lemma settleExpense_settlements:
  "settleExpense db rq pid amount = Inr db' \<Longrightarrow> settlements db' = settlements db"
  by (auto simp: settleExpense_def Let_def split: option.splits if_splits)

lemma createSettlement_Inr:
  "createSettlement db rq inp = Inr (db', row) \<Longrightarrow>
   settlements db' = settlements db @ [row] \<and> st_id row \<notin> set (map st_id (settlements db))
   \<and> st_status row = Pending \<and> st_amount row = in_amount inp \<and> in_amount inp > 0"
  by (auto simp: createSettlement_def Let_def split: option.splits if_splits)

lemma status_after_map:
  assumes f: "\<And>x. st_id (f x) = st_id x \<and> (st_status (f x) = st_status x \<or> st_status (f x) = Completed)"
    and pk: "distinct (map st_id xs)"
    and s: "s \<in> set xs"
  shows "(\<exists>s' \<in> set (map f xs). st_id s' = st_id s) \<and>
    (\<forall>s' \<in> set (map f xs). st_id s' = st_id s \<longrightarrow>
       st_status s' = st_status s \<or> st_status s' = Completed)"
proof
  show "\<exists>s' \<in> set (map f xs). st_id s' = st_id s"
    using s f by (intro bexI[of _ "f s"]) simp_all
  show "\<forall>s' \<in> set (map f xs). st_id s' = st_id s \<longrightarrow>
       st_status s' = st_status s \<or> st_status s' = Completed"
  proof (intro ballI impI)
    fix s' assume "s' \<in> set (map f xs)" and i: "st_id s' = st_id s"
    then obtain x where x: "x \<in> set xs" "s' = f x" by auto
    with i f have "st_id x = st_id s" by simp
    with pk x s have "x = s" by (auto simp: distinct_map inj_on_def)
    with x f show "st_status s' = st_status s \<or> st_status s' = Completed" by simp
  qed
qed

text \<open>
  C4, as the code has it. In a table whose ids are distinct (the primary key), every
  settlement is still there after any operation of the ledger, and its status is the
  one it had or \<open>completed\<close>: a completed settlement stays completed, no operation
  makes a settlement pending or cancelled, and a cancelled one stays cancelled or
  becomes completed.
\<close>

theorem ledger_step_status:
  assumes step: "ledger_step db rq op = Inr db'"
    and pk: "distinct (map st_id (settlements db))"
    and s: "s \<in> set (settlements db)"
  shows "(\<exists>s' \<in> set (settlements db'). st_id s' = st_id s) \<and>
    (\<forall>s' \<in> set (settlements db'). st_id s' = st_id s \<longrightarrow>
       st_status s' = st_status s \<or> st_status s' = Completed)"
proof (cases op)
  case (SettleExpense pid amount)
  with step have "settlements db' = settlements db"
    by (simp add: settleExpense_settlements)
  with pk s show ?thesis by (auto simp: distinct_map inj_on_def)
next
  case (CreateSettlement inp)
  with step obtain row where "createSettlement db rq inp = Inr (db', row)"
    by (auto split: sum.splits)
  then have "settlements db' = settlements db @ [row]" "st_id row \<notin> set (map st_id (settlements db))"
    using createSettlement_Inr by blast+
  with pk s show ?thesis by (auto simp: distinct_map inj_on_def)
next
  case (MarkSettlementComplete sid)
  let ?f = "\<lambda>s. if st_id s = sid \<and> involved_in rq s
                then s\<lparr>st_status := Completed, st_settled_at := Some (client_now rq)\<rparr> else s"
  from MarkSettlementComplete step have eq: "settlements db' = map ?f (settlements db)"
    by (auto simp: markSettlementComplete_def split: option.splits)
  have f: "st_id (?f x) = st_id x \<and> (st_status (?f x) = st_status x \<or> st_status (?f x) = Completed)" for x
    by simp
  show ?thesis
    unfolding eq by (rule status_after_map[of ?f, OF f pk s])
qed

lemma markSettlementComplete_cancelled:
  "markSettlementComplete db_cancelled (request_of ''uid-b'' ''b@x.org'') ''s1''
     = Inr (db_cancelled\<lparr>settlements :=
         [cancelled_settlement\<lparr>st_status := Completed,
                               st_settled_at := Some ''2025-06-28T18:00:01Z''\<rparr>]\<rparr>)"
  by (simp add: markSettlementComplete_def db_cancelled_def fields_request_of involved_in_def
      cancelled_settlement_def)

text \<open>
  \<open>markSettlementComplete\<close> does not look at the status: whatever status a settlement
  of the given id has, a party to it makes it completed.
\<close>

lemma markSettlementComplete_any_status:
  assumes "request_error rq = None" and "s \<in> set (settlements db)"
    and "st_id s = sid" and "involved_in rq s"
  shows "\<exists>db'. markSettlementComplete db rq sid = Inr db' \<and>
     s\<lparr>st_status := Completed, st_settled_at := Some (client_now rq)\<rparr> \<in> set (settlements db')"
  using assms by (auto simp: markSettlementComplete_def image_iff intro!: bexI[of _ s])

text \<open>B completes the cancelled settlement: it is still there.\<close>

theorem ledger_step_status_witness:
  "ledger_step db_cancelled (request_of ''uid-b'' ''b@x.org'') (MarkSettlementComplete ''s1'')
     = Inr (db_cancelled\<lparr>settlements :=
         [cancelled_settlement\<lparr>st_status := Completed,
                               st_settled_at := Some ''2025-06-28T18:00:01Z''\<rparr>]\<rparr>) \<and>
   distinct (map st_id (settlements db_cancelled)) \<and>
   cancelled_settlement \<in> set (settlements db_cancelled) \<and>
   (\<exists>s' \<in> set [cancelled_settlement\<lparr>st_status := Completed,
                                      st_settled_at := Some ''2025-06-28T18:00:01Z''\<rparr>].
      st_id s' = st_id cancelled_settlement)"
  using ledger_step_status [of db_cancelled "request_of ''uid-b'' ''b@x.org''"
      "MarkSettlementComplete ''s1''"
      "db_cancelled\<lparr>settlements :=
         [cancelled_settlement\<lparr>st_status := Completed,
                               st_settled_at := Some ''2025-06-28T18:00:01Z''\<rparr>]\<rparr>"
      cancelled_settlement]
  by (simp add: markSettlementComplete_cancelled) (simp add: db_cancelled_def)

text \<open>
  C4 as stated fails: \<open>markSettlementComplete\<close> takes a cancelled settlement out of its
  terminal state and makes it completed.
\<close>

theorem terminal_status_counterexample:
  "map st_status (settlements db_cancelled) = [Cancelled] \<and>
   (case markSettlementComplete db_cancelled (request_of ''uid-b'' ''b@x.org'') ''s1'' of
      Inl err \<Rightarrow> []
    | Inr db' \<Rightarrow> map st_status (settlements db')) = [Completed]"
  by (simp add: markSettlementComplete_cancelled) (simp add: db_cancelled_def cancelled_settlement_def)

section \<open>Creating a settlement\<close>

text \<open>
  C6: \<open>createSettlement\<close> fails whenever the amount is not positive, and when the
  session is authenticated and the request reaches the database the failure is the
  violated \<open>CHECK (amount > 0)\<close> of the table; when it returns a record, the amount is
  positive, and the record has that amount and the status \<open>pending\<close> and is the one
  row added to the table.
\<close>

theorem createSettlement_amount:
  "(in_amount inp \<le> 0 \<longrightarrow> isl (createSettlement db rq inp)) \<and>
   (in_amount inp \<le> 0 \<and> auth_email rq = Some e \<and> e \<noteq> [] \<and> request_error rq = None \<longrightarrow>
      createSettlement db rq inp = Inl (check_violation ''settlements_amount_check'')) \<and>
   (createSettlement db rq inp = Inr (db', row) \<longrightarrow>
      in_amount inp > 0 \<and> st_amount row = in_amount inp \<and> st_status row = Pending \<and>
      settlements db' = settlements db @ [row])"
proof -
  have "isl (createSettlement db rq inp)" if "in_amount inp \<le> 0"
    using that by (auto simp: createSettlement_def Let_def split: option.splits)
  moreover have "createSettlement db rq inp = Inl (check_violation ''settlements_amount_check'')"
    if "in_amount inp \<le> 0" "auth_email rq = Some e" "e \<noteq> []" "request_error rq = None"
    using that by (simp add: createSettlement_def Let_def involved_in_def)
  ultimately show ?thesis using createSettlement_Inr[of db rq inp db' row] by blast
qed

lemma createSettlement_pay_a:
  "0 < amount \<Longrightarrow>
   createSettlement db_dinner (request_of ''uid-b'' ''b@x.org'') (pay_a amount)
     = Inr (db_dinner\<lparr>settlements :=
              [\<lparr>st_id = ''s-new'', st_from_user_email = ''b@x.org'', st_to_user_email = ''a@x.org'',
                st_amount = amount, st_shared_expense_id = Some ''e1'', st_description = None,
                st_status = Pending, st_settled_at = None,
                st_created_at = ''2025-06-28T18:00:00Z''\<rparr>]\<rparr>,
            \<lparr>st_id = ''s-new'', st_from_user_email = ''b@x.org'', st_to_user_email = ''a@x.org'',
              st_amount = amount, st_shared_expense_id = Some ''e1'', st_description = None,
              st_status = Pending, st_settled_at = None,
              st_created_at = ''2025-06-28T18:00:00Z''\<rparr>)"
  by (simp add: createSettlement_def Let_def fields_request_of pay_a_def involved_in_def
      tables_dinner ids_dinner)

text \<open>B asks to pay A -5, then 0, then 40: only the last request creates a settlement.\<close>

theorem createSettlement_amount_witness:
  "createSettlement db_dinner (request_of ''uid-b'' ''b@x.org'') (pay_a (- 5))
     = Inl (check_violation ''settlements_amount_check'') \<and>
   createSettlement db_dinner (request_of ''uid-b'' ''b@x.org'') (pay_a 0)
     = Inl (check_violation ''settlements_amount_check'') \<and>
   (\<exists>db' row. createSettlement db_dinner (request_of ''uid-b'' ''b@x.org'') (pay_a 40) = Inr (db', row)
      \<and> st_amount row = 40 \<and> st_status row = Pending \<and> settlements db' = [row])"
  using createSettlement_amount [of "pay_a (- 5)" db_dinner "request_of ''uid-b'' ''b@x.org''" "''b@x.org''"]
    createSettlement_amount [of "pay_a 0" db_dinner "request_of ''uid-b'' ''b@x.org''" "''b@x.org''"]
    createSettlement_pay_a [of 40]
  by (simp add: fields_request_of pay_a_def)

section \<open>Notification failures\<close>



text \<open>
  The sibling path does absorb the failure: what \<open>createSharedExpense\<close> returns does
  not depend on the edge function at all.
\<close>

lemma createSharedExpense_ignores_notifications:
  "fst (createSharedExpense ca fe expense) = fst (createSharedExpense ca fe' expense)"
  by (simp add: createSharedExpense_def Let_def split: option.splits sum.splits prod.splits)

end
